theory Spec2Isabelle
  imports Complex_Main "HOL-Library.Word" "HOL-Library.Log_Nat"
begin

section \<open>JavaScript strings\<close>

text \<open>
  A JavaScript string is a sequence of UTF-16 code units. Indexing (\<open>line[i]\<close>),
  \<open>split("")\<close>, \<open>length\<close> and regular expressions without the \<open>u\<close> flag all work on
  code units, so a string is modelled as a list of 16-bit words. \<open>js\<close> embeds an
  Isabelle string literal (8-bit characters) for readable concrete inputs.
\<close>

type_synonym code_unit = "16 word"
type_synonym jsstring = "code_unit list"

definition js :: "string \<Rightarrow> jsstring" where
  "js cs = map (\<lambda>c. of_nat (of_char c)) cs"

definition comma :: code_unit where "comma = 0x2C"
definition dquote :: code_unit where "dquote = 0x22"
definition backslash :: code_unit where "backslash = 0x5C"
definition space :: code_unit where "space = 0x20"
definition lbrace :: code_unit where "lbrace = 0x7B"
definition rbrace :: code_unit where "rbrace = 0x7D"

text \<open>
  \<open>String.prototype.trim\<close> removes the code units of the ECMAScript productions
  WhiteSpace and LineTerminator from both ends.
\<close>

definition is_space :: "code_unit \<Rightarrow> bool" where
  "is_space c \<longleftrightarrow>
     c = 0x09 \<or> c = 0x0A \<or> c = 0x0B \<or> c = 0x0C \<or> c = 0x0D \<or> c = 0x20 \<or> c = 0xA0 \<or>
     c = 0x1680 \<or> (0x2000 \<le> c \<and> c \<le> 0x200A) \<or> c = 0x2028 \<or> c = 0x2029 \<or>
     c = 0x202F \<or> c = 0x205F \<or> c = 0x3000 \<or> c = 0xFEFF"

definition trim :: "jsstring \<Rightarrow> jsstring" where
  "trim s = rev (dropWhile is_space (rev (dropWhile is_space s)))"

text \<open>\<open>Array.prototype.join\<close> on an array of strings.\<close>

fun join :: "jsstring \<Rightarrow> jsstring list \<Rightarrow> jsstring" where
  "join sep [] = []"
| "join sep [x] = x"
| "join sep (x # y # ys) = x @ sep @ join sep (y # ys)"

section \<open>Q.parse_list\<close>

text \<open>
  The loop variables of \<open>Q.parse_list\<close>: the array \<open>a\<close> of finished fields, the field
  \<open>s\<close> being collected, the flag \<open>q\<close> (inside double quotes) and the flag \<open>esc\<close> (the
  previous code unit was a backslash inside quotes).
\<close>

record pl_state =
  a :: "jsstring list"
  s :: jsstring
  q :: bool
  esc :: bool

text \<open>
  One iteration of the loop body, for the code unit \<open>c\<close> and the flag \<open>eol\<close>. The
  branches are in the order of the source.
\<close>

definition parse_step :: "bool \<Rightarrow> code_unit \<Rightarrow> pl_state \<Rightarrow> pl_state" where
  "parse_step eol c st =
     (if q st then
        (if esc st then st\<lparr>s := s st @ [c], esc := False\<rparr>
         else if c = backslash then st\<lparr>esc := True\<rparr>
         else if c = dquote then st\<lparr>q := False\<rparr>
         else st\<lparr>s := s st @ [c]\<rparr>)
      else if c = dquote then st\<lparr>q := True\<rparr>
      else if c = comma \<or> eol then st\<lparr>a := a st @ [trim (s st)], s := []\<rparr>
      else st\<lparr>s := s st @ [c]\<rparr>)"

text \<open>
  The loop \<open>for (; i <= line.length; i++)\<close>, on the code units from index \<open>i\<close> on.
  The last iteration has \<open>i = line.length\<close>: there \<open>line[i]\<close> is undefined, so \<open>c\<close> is
  the comma of \<open>line[i] || ","\<close> and \<open>eol\<close> is true. For \<open>i < line.length\<close> the value
  \<open>line[i]\<close> is a string of length one, which is truthy.
\<close>

fun parse_loop :: "jsstring \<Rightarrow> pl_state \<Rightarrow> pl_state" where
  "parse_loop [] st = parse_step True comma st"
| "parse_loop (c # cs) st = parse_loop cs (parse_step False c st)"

definition pl_init :: pl_state where
  "pl_init = \<lparr>a = [], s = [], q = False, esc = False\<rparr>"

definition parse_list :: "jsstring \<Rightarrow> jsstring list" where
  "parse_list line = (if length line = 0 then [] else a (parse_loop line pl_init))"

text \<open>The loop variables when the last code unit of the line has been read.\<close>

definition scan_line :: "jsstring \<Rightarrow> pl_state" where
  "scan_line line = foldl (\<lambda>st c. parse_step False c st) pl_init line"

text \<open>
  The arrays of the tag round trip: every element is non-empty, has no comma, no double
  quote and no backslash, and neither starts nor ends with whitespace.
\<close>

definition plain_tag :: "jsstring \<Rightarrow> bool" where
  "plain_tag e \<longleftrightarrow>
     e \<noteq> [] \<and> comma \<notin> set e \<and> dquote \<notin> set e \<and> backslash \<notin> set e \<and>
     \<not> is_space (hd e) \<and> \<not> is_space (last e)"

section \<open>String.prototype.format\<close>

text \<open>
  The code observes a JavaScript value in two ways only: \<open>replace\<close> converts the value
  returned by the callback with ToString, and \<open>i <= n\<close> in \<open>T.format\<close> converts \<open>n\<close>
  with ToNumber. A value is modelled by these two observations; \<open>to_number\<close> is
  \<open>None\<close> for NaN. Numbers are integers here.
\<close>

record jsval =
  to_string :: jsstring
  to_number :: "int option"

text \<open>
  An object is modelled by its property lookup: \<open>obj k\<close> is \<open>None\<close> when \<open>k in obj\<close> is
  false (then \<open>obj[k]\<close> is \<open>undefined\<close>), and the value of \<open>obj[k]\<close> otherwise. The
  lookup follows the prototype chain, so an inherited property is a property.
\<close>

type_synonym jsobject = "jsstring \<Rightarrow> jsval option"

text \<open>
  The object \<open>{}\<close> has no property of its own and inherits those of
  \<open>Object.prototype\<close>: \<open>constructor\<close>, which is the function \<open>Object\<close>, the methods, and
  \<open>__proto__\<close>, which is \<open>Object.prototype\<close> itself. The string of a built-in function is
  the one of V8 and JavaScriptCore (the standard fixes its syntax and leaves the white
  space to the engine); none of them converts to a number.
\<close>

definition native_function :: "jsstring \<Rightarrow> jsval" where
  "native_function name =
     \<lparr>to_string = js ''function '' @ name @ js ''() { [native code] }'', to_number = None\<rparr>"

definition prototype_methods :: "jsstring list" where
  "prototype_methods =
     map js [''__defineGetter__'', ''__defineSetter__'', ''hasOwnProperty'',
       ''__lookupGetter__'', ''__lookupSetter__'', ''isPrototypeOf'',
       ''propertyIsEnumerable'', ''toString'', ''valueOf'', ''toLocaleString'']"

definition empty_object :: jsobject where
  "empty_object k =
     (if k = js ''constructor'' then Some (native_function (js ''Object''))
      else if k \<in> set prototype_methods then Some (native_function k)
      else if k = js ''__proto__'' then
        Some \<lparr>to_string = js ''[object Object]'', to_number = None\<rparr>
      else None)"

text \<open>The callback \<open>function (match, k) { return args[k]; }\<close>, with the ToString of \<open>replace\<close>.\<close>

definition lookup_string :: "jsobject \<Rightarrow> jsstring \<Rightarrow> jsstring" where
  "lookup_string args k = (case args k of None \<Rightarrow> js ''undefined'' | Some v \<Rightarrow> to_string v)"

text \<open>
  A match of the regular expression \<open>\{([^}]+)\}\<close> at the head of a string: an opening
  brace, then the greedy run \<open>[^}]+\<close>, then a closing brace. The run is the longest
  prefix without a closing brace; a shorter run would be followed by a code unit that is
  not a closing brace, so backtracking never finds another match. The result is the
  captured group and the rest of the string after the match.
\<close>

definition match_placeholder :: "jsstring \<Rightarrow> (jsstring \<times> jsstring) option" where
  "match_placeholder str =
     (case str of
        [] \<Rightarrow> None
      | c # cs \<Rightarrow>
          if c = lbrace then
            (let k = takeWhile (\<lambda>x. x \<noteq> rbrace) cs;
                 r = dropWhile (\<lambda>x. x \<noteq> rbrace) cs
             in if k \<noteq> [] \<and> r \<noteq> [] then Some (k, tl r) else None)
          else None)"

text \<open>
  \<open>this.replace(re, f)\<close> with the global flag: the string is scanned from the left, each
  match is replaced by the callback's result and the scan goes on after the match; a
  code unit where no match starts is copied.
\<close>

function format :: "jsstring \<Rightarrow> jsobject \<Rightarrow> jsstring" where
  "format [] args = []"
| "format (c # cs) args =
     (case match_placeholder (c # cs) of
        Some (k, rest) \<Rightarrow> lookup_string args k @ format rest args
      | None \<Rightarrow> c # format cs args)"
  by pat_completeness auto
termination
proof (relation "measure (\<lambda>(str, args). length str)")
  fix c cs args x k rest
  assume "match_placeholder (c # cs) = Some x" and "(k, rest) = x"
  then have "rest = tl (dropWhile (\<lambda>x. x \<noteq> rbrace) cs)"
    by (auto simp: match_placeholder_def Let_def split: if_splits)
  then have "length rest \<le> length cs"
    using length_dropWhile_le [of "\<lambda>x. x \<noteq> rbrace" cs] by simp
  then show "((rest, args), c # cs, args) \<in> measure (\<lambda>(str, args). length str)"
    by simp
qed simp_all

text \<open>
  An occurrence of a placeholder in \<open>str\<close>: \<open>str\<close> is \<open>u\<close>, an opening brace, a non-empty
  key \<open>k\<close> without closing brace, a closing brace, and \<open>v\<close>.
\<close>

definition placeholder_at :: "jsstring \<Rightarrow> jsstring \<Rightarrow> jsstring \<Rightarrow> jsstring \<Rightarrow> bool" where
  "placeholder_at str u k v \<longleftrightarrow> str = u @ lbrace # k @ rbrace # v \<and> k \<noteq> [] \<and> rbrace \<notin> set k"

section \<open>Exceptions\<close>

text \<open>
  What the code can throw, or reject a promise with: the \<open>TypeError\<close> of a property
  access on \<open>undefined\<close>, an \<open>Error\<close> made with \<open>new Error(message)\<close>, and the failures
  that come from the browser (a rejected \<open>fetch\<close>, an invalid selector, a value that
  \<open>JSON.stringify\<close> refuses), named by a string.
\<close>

datatype js_error = TypeError | Error jsstring | Failure jsstring

section \<open>T.format\<close>

text \<open>
  An entry of \<open>T.translations\<close> is an object such as
  \<open>{0: 'no cane', 1: 'un case', 2: '{n} cani', 10: 'tanti cani'}\<close>. It is modelled by the
  list of its own properties, key and translation, in the order they were created; the
  first binding of a key is the property. The keys are strings, whatever they were
  written as.

  The table is modelled by its lookup \<open>T.translations[text]\<close>, which follows the
  prototype chain: \<open>None\<close> is \<open>undefined\<close>, which is falsy, and an entry is an object,
  which is truthy. A property inherited from \<open>Object.prototype\<close> is a function, or
  \<open>Object.prototype\<close> itself: an object without enumerable property and without
  property under a numeric key, which is the entry \<open>[]\<close>. \<open>object_table props\<close> is the
  table that is a plain object with the own properties \<open>props\<close>; the table as loaded,
  \<open>{}\<close>, is \<open>object_table []\<close>.
\<close>

type_synonym plural_entry = "(jsstring \<times> jsstring) list"
type_synonym table = "jsstring \<Rightarrow> plural_entry option"

definition object_table :: "(jsstring \<times> plural_entry) list \<Rightarrow> table" where
  "object_table props t =
     (case map_of props t of
        Some e \<Rightarrow> Some e
      | None \<Rightarrow> if empty_object t = None then None else Some [])"

text \<open>
  The decimal numeral of a natural number, and \<open>ToString\<close> of an integer: the property
  key of \<open>translations[k]\<close>. It is the decimal numeral for an integer below \<open>10 ^ 21\<close> in
  absolute value, where \<open>ToString\<close> turns to the exponent notation.
\<close>

definition digit_char :: "nat \<Rightarrow> code_unit" where
  "digit_char d = of_nat (48 + d)"

fun decimal :: "nat \<Rightarrow> jsstring" where
  "decimal i = (if i < 10 then [digit_char i] else decimal (i div 10) @ [digit_char (i mod 10)])"

declare decimal.simps [simp del]

definition number_key :: "int \<Rightarrow> jsstring" where
  "number_key k = (if k < 0 then 0x2D # decimal (nat (- k)) else decimal (nat k))"

text \<open>
  \<open>parseInt(key)\<close>, without radix: white space at the start is skipped, then a sign, then
  the prefix \<open>0x\<close> or \<open>0X\<close> for radix 16, and the longest run of digits of the radix is
  read; without a digit the result is NaN, which is \<open>None\<close>. The value is kept as the
  integer read: it is the number \<open>parseInt\<close> returns up to \<open>2 ^ 53\<close>, where a double
  begins to round.
\<close>

definition digit_of :: "code_unit \<Rightarrow> nat option" where
  "digit_of c =
     (if 0x30 \<le> c \<and> c \<le> 0x39 then Some (unat c - 48)
      else if 0x61 \<le> c \<and> c \<le> 0x7A then Some (unat c - 87)
      else if 0x41 \<le> c \<and> c \<le> 0x5A then Some (unat c - 55)
      else None)"

definition radix_digit :: "nat \<Rightarrow> code_unit \<Rightarrow> bool" where
  "radix_digit r c = (case digit_of c of None \<Rightarrow> False | Some d \<Rightarrow> d < r)"

definition digits_value :: "nat \<Rightarrow> jsstring \<Rightarrow> nat" where
  "digits_value r ds =
     foldl (\<lambda>acc c. acc * r + (case digit_of c of None \<Rightarrow> 0 | Some d \<Rightarrow> d)) 0 ds"

definition parse_int :: "jsstring \<Rightarrow> int option" where
  "parse_int str =
     (let s0 = dropWhile is_space str;
          negative = (s0 \<noteq> [] \<and> hd s0 = 0x2D);
          s1 = (if s0 \<noteq> [] \<and> (hd s0 = 0x2B \<or> hd s0 = 0x2D) then tl s0 else s0);
          hex = (take 2 s1 = js ''0x'' \<or> take 2 s1 = js ''0X'');
          r = (if hex then 16 else 10);
          ds = takeWhile (radix_digit r) (if hex then drop 2 s1 else s1)
      in if ds = [] then None
         else Some (if negative then - int (digits_value r ds) else int (digits_value r ds)))"

text \<open>
  \<open>for (var key in translations)\<close> visits the own keys that are array indices (the
  decimal numerals of the integers below \<open>2 ^ 32 - 1\<close>) in ascending order, and after them
  the other keys in the order they were created. No enumerable property is inherited.
\<close>

definition array_index :: "jsstring \<Rightarrow> nat option" where
  "array_index key =
     (if key \<noteq> [] \<and> list_all (radix_digit 10) key \<and> decimal (digits_value 10 key) = key \<and>
         digits_value 10 key < 4294967295
      then Some (digits_value 10 key) else None)"

definition index_value :: "jsstring \<Rightarrow> nat" where
  "index_value key = (case array_index key of None \<Rightarrow> 0 | Some i \<Rightarrow> i)"

definition own_keys :: "plural_entry \<Rightarrow> jsstring list" where
  "own_keys e = rev (remdups (rev (map fst e)))"

definition for_in_keys :: "plural_entry \<Rightarrow> jsstring list" where
  "for_in_keys e =
     sort_key index_value (filter (\<lambda>key. array_index key \<noteq> None) (own_keys e)) @
     filter (\<lambda>key. array_index key = None) (own_keys e)"

text \<open>The number \<open>1\<close> of \<open>"n" in args ? args.n : 1\<close>.\<close>

definition js_one :: jsval where
  "js_one = \<lparr>to_string = js ''1'', to_number = Some 1\<rparr>"

text \<open>
  \<open>i <= n\<close> for the number \<open>i\<close> of \<open>parseInt(key)\<close>: false when \<open>i\<close> is NaN or \<open>n\<close> converts
  to NaN.
\<close>

definition js_le :: "int option \<Rightarrow> jsval \<Rightarrow> bool" where
  "js_le i n =
     (case i of
        None \<Rightarrow> False
      | Some v \<Rightarrow> (case to_number n of None \<Rightarrow> False | Some m \<Rightarrow> v \<le> m))"

text \<open>The loop over the keys, with the variable \<open>k\<close>; the \<open>else\<close> branch is the \<open>break\<close>.\<close>

fun choose_key :: "jsstring list \<Rightarrow> jsval \<Rightarrow> int \<Rightarrow> int" where
  "choose_key [] n k = k"
| "choose_key (key # keys) n k =
     (if js_le (parse_int key) n
      then choose_key keys n (case parse_int key of None \<Rightarrow> k | Some i \<Rightarrow> i)
      else k)"

text \<open>
  \<open>T.format(text, args)\<close>. The argument \<open>args\<close> is optional (\<open>args || {}\<close>), and so is the
  table (\<open>T.translations || {}\<close>); \<open>entry\<close> is the constant \<open>translations\<close> of the source.
  When the entry has no property \<open>k\<close>, \<open>translations[k]\<close> is \<open>undefined\<close> and the call
  \<open>text.format(args)\<close> throws a \<open>TypeError\<close>.
\<close>

definition T_format :: "table option \<Rightarrow> jsstring \<Rightarrow> jsobject option \<Rightarrow> js_error + jsstring" where
  "T_format translations_table text args0 =
     (let args = (case args0 of None \<Rightarrow> empty_object | Some obj \<Rightarrow> obj);
          entry = (case translations_table of
                     None \<Rightarrow> object_table [] text
                   | Some tbl \<Rightarrow> tbl text);
          n = (case args (js ''n'') of Some v \<Rightarrow> v | None \<Rightarrow> js_one)
      in case entry of
           None \<Rightarrow> Inr (format text args)
         | Some e \<Rightarrow>
             (let k = choose_key (for_in_keys e) n 0
              in case map_of e (number_key k) of
                   None \<Rightarrow> Inl TypeError
                 | Some t \<Rightarrow> Inr (format t args)))"

text \<open>
  The pluralisation rule in words, on an entry given by its numbers: the largest key
  that is at most the number \<open>m\<close> of \<open>n\<close>, and the key \<open>0\<close> when no key is, or when \<open>n\<close> is
  not a number. \<open>numbered ks\<close> is the entry written with the numbers of \<open>ks\<close> as keys.
\<close>

definition plural_key :: "(nat \<times> jsstring) list \<Rightarrow> int option \<Rightarrow> nat" where
  "plural_key ks m0 =
     (case m0 of
        None \<Rightarrow> 0
      | Some m \<Rightarrow>
          if \<exists>i\<in>fst ` set ks. int i \<le> m then Max {i \<in> fst ` set ks. int i \<le> m} else 0)"

definition numbered :: "(nat \<times> jsstring) list \<Rightarrow> plural_entry" where
  "numbered ks = map (\<lambda>(i, tr). (decimal i, tr)) ks"

text \<open>The object literal \<open>{n: i}\<close> for an integer \<open>i\<close>.\<close>

definition count_arg :: "int \<Rightarrow> jsobject" where
  "count_arg i =
     (\<lambda>k. if k = js ''n'' then Some \<lparr>to_string = number_key i, to_number = Some i\<rparr>
          else empty_object k)"

section \<open>Numbers\<close>

text \<open>
  A JavaScript number is an IEEE 754 binary64 value, and \<open>+\<close> and \<open>/\<close> round the exact
  result to the nearest such value, ties to the even significand. The numbers of
  \<open>Q.score_password\<close> are finite and in the normal range (the terms \<open>5 / k\<close> for a count
  \<open>k\<close>, and partial sums between \<open>-10\<close> and \<open>5 * length + 30\<close>), so a number is modelled
  by the rational it denotes and the exponent range is not bounded.

  \<open>exponent x\<close> is the integer \<open>e\<close> with \<open>2 ^ e \<le> \<bar>x\<bar> < 2 ^ (e + 1)\<close>, and \<open>fl x\<close> is
  the multiple of \<open>2 ^ (e - 52)\<close> nearest to \<open>x\<close>: a significand of 53 bits.
\<close>

definition round_half_even :: "rat \<Rightarrow> int" where
  "round_half_even x =
     (let f = \<lfloor>x\<rfloor>; d = x - of_int f
      in if d < 1 / 2 then f else if 1 / 2 < d then f + 1 else if even f then f else f + 1)"

definition exponent :: "rat \<Rightarrow> int" where
  "exponent x =
     (if 1 \<le> \<bar>x\<bar> then bitlen \<lfloor>\<bar>x\<bar>\<rfloor> - 1 else - bitlen (\<lceil>1 / \<bar>x\<bar>\<rceil> - 1))"

definition fl :: "rat \<Rightarrow> rat" where
  "fl x =
     (if x = 0 then 0
      else let e = exponent x - 52
           in of_int (round_half_even (x / power_int 2 e)) * power_int 2 e)"

definition fadd :: "rat \<Rightarrow> rat \<Rightarrow> rat" where
  "fadd x y = fl (x + y)"

definition fdiv :: "rat \<Rightarrow> rat \<Rightarrow> rat" where
  "fdiv x y = fl (x / y)"

text \<open>\<open>Math.round\<close>: the nearest integer, a tie going up.\<close>

definition js_round :: "rat \<Rightarrow> int" where
  "js_round x = \<lfloor>x + 1 / 2\<rfloor>"

section \<open>Q.score_password\<close>

text \<open>
  The four regular expressions \<open>/\d/\<close>, \<open>/[a-z]/\<close>, \<open>/[A-Z]/\<close> and \<open>/\W/\<close>; without the
  flags \<open>u\<close> and \<open>i\<close> each is a class of code units, and \<open>re.test(text)\<close> asks for one
  code unit of the class in \<open>text\<close>.
\<close>

definition is_digit :: "code_unit \<Rightarrow> bool" where
  "is_digit c \<longleftrightarrow> 0x30 \<le> c \<and> c \<le> 0x39"

definition is_lower :: "code_unit \<Rightarrow> bool" where
  "is_lower c \<longleftrightarrow> 0x61 \<le> c \<and> c \<le> 0x7A"

definition is_upper :: "code_unit \<Rightarrow> bool" where
  "is_upper c \<longleftrightarrow> 0x41 \<le> c \<and> c \<le> 0x5A"

definition is_nonword :: "code_unit \<Rightarrow> bool" where
  "is_nonword c \<longleftrightarrow> \<not> (is_digit c \<or> is_lower c \<or> is_upper c \<or> c = 0x5F)"

definition char_classes :: "(code_unit \<Rightarrow> bool) list" where
  "char_classes = [is_digit, is_lower, is_upper, is_nonword]"

definition re_test :: "(code_unit \<Rightarrow> bool) \<Rightarrow> jsstring \<Rightarrow> bool" where
  "re_test re text = list_ex re text"

text \<open>
  The callback of \<open>text.split("").map\<close>, on the variables \<open>score\<close> and \<open>counters\<close>. The
  object \<open>counters\<close> is a map from code units to counts (\<open>counters[c] || 0\<close> is \<open>0\<close> for a
  code unit not seen yet); a count is below \<open>2 ^ 53\<close>, so its increment is exact.
\<close>

definition count_char :: "rat \<times> (code_unit \<rightharpoonup> nat) \<Rightarrow> code_unit \<Rightarrow> rat \<times> (code_unit \<rightharpoonup> nat)" where
  "count_char st c =
     (let score = fst st; counters = snd st;
          n = (case counters c of None \<Rightarrow> 0 | Some m \<Rightarrow> m) + 1
      in (fadd score (fdiv 5 (of_nat n)), counters(c \<mapsto> n)))"

text \<open>The callback of the second \<open>map\<close>: \<open>score += re.test(text) ? 10 : 0\<close>.\<close>

definition add_class :: "jsstring \<Rightarrow> rat \<Rightarrow> (code_unit \<Rightarrow> bool) \<Rightarrow> rat" where
  "add_class text score re = fadd score (if re_test re text then 10 else 0)"

definition score_password :: "jsstring \<Rightarrow> int" where
  "score_password text =
     (let score = fst (foldl count_char (- 10, Map.empty) text);
          score = foldl (add_class text) score char_classes
      in js_round (max 0 score))"

text \<open>
  The formula of the specification. \<open>occurrences text i\<close> is the number of occurrences
  of \<open>text[i]\<close> among the first \<open>i + 1\<close> code units. \<open>exact_score\<close> evaluates the formula
  in exact arithmetic; \<open>rounded_score\<close> adds the same terms from left to right, the
  terms \<open>5 / k\<close> first and one term (\<open>10\<close> or \<open>0\<close>) for each class after them, rounding
  each quotient and each sum to binary64.
\<close>

definition occurrences :: "jsstring \<Rightarrow> nat \<Rightarrow> nat" where
  "occurrences text i = count_list (take (Suc i) text) (text ! i)"

definition class_bonus :: "jsstring \<Rightarrow> (code_unit \<Rightarrow> bool) \<Rightarrow> rat" where
  "class_bonus text re = (if re_test re text then 10 else 0)"

definition exact_score :: "jsstring \<Rightarrow> int" where
  "exact_score text =
     js_round (max 0 (- 10 + (\<Sum>i\<leftarrow>[0..<length text]. 5 / of_nat (occurrences text i))
                         + (\<Sum>re\<leftarrow>char_classes. class_bonus text re)))"

definition rounded_score :: "jsstring \<Rightarrow> int" where
  "rounded_score text =
     js_round (max 0
       (foldl fadd
          (foldl fadd (- 10) (map (\<lambda>i. fdiv 5 (of_nat (occurrences text i))) [0..<length text]))
          (map (class_bonus text) char_classes)))"

section \<open>The page\<close>

text \<open>
  The functions below act on the page: the shared state of the library (the flag
  \<open>Q._globalDelegateActive\<close> and the table \<open>T.translations\<close>), the click listeners on
  \<open>document.body\<close>, the timers of the window, what \<open>Q.handle_flash\<close> found when the page
  was set up, and the trace of what the library did to the outside: requests, banners,
  lines on the console, navigation, writes to the document, timer calls and callbacks.
\<close>

record flash_detail =
  message :: jsstring
  flash_class :: jsstring

datatype body = FormBody jsstring | JsonBody jsstring

record request =
  req_method :: jsstring
  req_url :: jsstring
  req_headers :: "(jsstring \<times> jsstring) list option"
  req_body :: "body option"

record response =
  redirected :: bool
  res_url :: jsstring
  res_data :: jsstring
  component_flash :: "jsstring option"

datatype listener = GlobalSubmit

text \<open>
  \<open>Q.handle_flash\<close> finds no \<open>flash-alerts\<close> element and leaves \<open>Q.flash\<close> as it was
  defined, or finds one and installs its own \<open>Q.flash\<close>, with the handler for a page
  without \<open>bootstrap\<close> or the one for a page with it.
\<close>

datatype flash_mode = NoAlerts | PlainAlerts | BootstrapAlerts

datatype deferred = Later jsstring | Release

datatype event =
    Fetch request
  | ConsoleLog flash_detail
  | Banner flash_detail
  | ConsoleError jsstring js_error
  | Navigate jsstring
  | SetInnerHTML jsstring jsstring
  | TrapForms jsstring "jsstring option"
  | SetTimeout nat nat
  | ClearTimeout "nat option"
  | Callback jsstring

record page =
  globalDelegateActive :: bool
  T_translations :: "table option"
  body_click :: "listener list"
  flash_alerts :: flash_mode
  next_timer :: nat
  timers :: "(nat \<times> deferred) list"
  events :: "event list"

definition log_event :: "event \<Rightarrow> page \<Rightarrow> page" where
  "log_event e pg = pg\<lparr>events := events pg @ [e]\<rparr>"

text \<open>
  A settled promise. The callbacks of a promise chain run one after the other once the
  request has settled; the model runs the chain to its end in one step.
\<close>

datatype 'a promise = Fulfilled 'a | Rejected js_error

text \<open>
  What the browser answers. \<open>network\<close> is the outcome of \<open>fetch\<close> followed by
  \<open>res.text()\<close>; \<open>find_target\<close> is \<open>Q("#" + target)[0]\<close>, which throws on an invalid
  selector and otherwise tells whether an element was found; \<open>reinsert_scripts\<close> is
  the loop that replaces the scripts of the new content (\<open>setAttribute\<close> throws on an
  attribute name it refuses); \<open>find_forms\<close> is the selector query of
  \<open>Q.trap_form\<close>; \<open>global_submit\<close> is \<open>elem.getAttribute("global-submit")\<close>; \<open>json_parse\<close>
  is \<open>JSON.parse\<close> on the flash header. What the scripts of the new content do when
  they run is not part of the library and not modelled.
\<close>

record browser =
  network :: "request \<Rightarrow> js_error + response"
  find_target :: "jsstring \<Rightarrow> js_error + bool"
  reinsert_scripts :: "jsstring \<Rightarrow> jsstring \<Rightarrow> js_error + unit"
  find_forms :: "jsstring \<Rightarrow> js_error + unit"
  global_submit :: "jsstring \<Rightarrow> jsstring option"
  json_parse :: "jsstring \<Rightarrow> js_error + flash_detail"

text \<open>
  \<open>Q.flash(detail)\<close>. As defined at load it writes a line on the console and shows
  nothing. The installed one dispatches an event to the \<open>flash-alerts\<close> element, whose
  handler shows a banner with the message and the class \<open>detail.class || "info"\<close>. The
  handler for a page without \<open>bootstrap\<close> adds the class with \<open>classList.add\<close>, which
  throws on a class with white space before the banner is appended; the exception
  stays in the handler. Neither \<open>Q.flash\<close> throws.
\<close>

definition class_token :: "jsstring \<Rightarrow> bool" where
  "class_token cls \<longleftrightarrow>
     cls \<noteq> [] \<and> \<not> list_ex (\<lambda>c. c = 0x09 \<or> c = 0x0A \<or> c = 0x0C \<or> c = 0x0D \<or> c = 0x20) cls"

definition flash :: "flash_detail \<Rightarrow> page \<Rightarrow> page" where
  "flash detail pg =
     (let cls = (if flash_class detail = [] then js ''info'' else flash_class detail);
          banner = Banner \<lparr>message = message detail, flash_class = cls\<rparr>
      in case flash_alerts pg of
           NoAlerts \<Rightarrow> log_event (ConsoleLog detail) pg
         | BootstrapAlerts \<Rightarrow> log_event banner pg
         | PlainAlerts \<Rightarrow> if class_token cls then log_event banner pg else pg)"

section \<open>Q._maybeSetupGlobalDelegate\<close>

text \<open>
  The library calls the function from \<open>Q.trap_form\<close>, on a document that has its body.
  The listener is a new function at each registration, so \<open>addEventListener\<close> adds it
  whatever is registered already.
\<close>

definition maybeSetupGlobalDelegate :: "page \<Rightarrow> page" where
  "maybeSetupGlobalDelegate pg =
     (if globalDelegateActive pg then pg
      else pg\<lparr>globalDelegateActive := True, body_click := body_click pg @ [GlobalSubmit]\<rparr>)"

text \<open>The page after \<open>n\<close> calls in a row.\<close>

fun setup_calls :: "nat \<Rightarrow> page \<Rightarrow> page" where
  "setup_calls 0 pg = pg"
| "setup_calls (Suc n) pg = setup_calls n (maybeSetupGlobalDelegate pg)"

text \<open>
  The page when the library has been loaded: the flag is false, \<open>T.translations\<close> is the
  object \<open>{}\<close>, \<open>Q.flash\<close> is as defined, and nothing has happened yet. And the same page
  when \<open>Q.handle_flash\<close> has found a \<open>flash-alerts\<close> element.
\<close>

definition fresh_page :: page where
  "fresh_page =
     \<lparr>globalDelegateActive = False, T_translations = Some (object_table []), body_click = [],
      flash_alerts = NoAlerts, next_timer = 0, timers = [], events = []\<rparr>"

definition alerts_page :: page where
  "alerts_page = fresh_page\<lparr>flash_alerts := PlainAlerts\<rparr>"

section \<open>Q.ajax\<close>

text \<open>
  The argument \<open>data\<close>, when truthy, is a \<open>FormData\<close> or a value that the code passes
  to \<open>JSON.stringify\<close>; such a value is modelled by what \<open>JSON.stringify\<close> makes of it,
  a string or an exception. The argument \<open>headers\<close>, when truthy, is an object, modelled
  by the list of its properties.
\<close>

datatype payload = FormData jsstring | Plain "js_error + jsstring"

fun set_header :: "(jsstring \<times> jsstring) list \<Rightarrow> jsstring \<times> jsstring \<Rightarrow> (jsstring \<times> jsstring) list" where
  "set_header [] h = [h]"
| "set_header (x # xs) h = (if fst x = fst h then h # xs else x # set_header xs h)"

text \<open>
  The object \<open>options\<close>. \<open>options.headers\<close> exists only after the branch for data
  that is not a \<open>FormData\<close>; the loop \<open>options.headers[name] = headers[name]\<close> throws a
  \<open>TypeError\<close> at its first property when \<open>options.headers\<close> is undefined.
\<close>

definition make_options ::
  "jsstring \<Rightarrow> jsstring \<Rightarrow> payload option \<Rightarrow> (jsstring \<times> jsstring) list option \<Rightarrow> js_error + request" where
  "make_options method url data headers =
     (case (case data of
              None \<Rightarrow> Inr (None, None)
            | Some (FormData fd) \<Rightarrow> Inr (None, Some (FormBody fd))
            | Some (Plain (Inl e)) \<Rightarrow> Inl e
            | Some (Plain (Inr str)) \<Rightarrow>
                Inr (Some [(js ''Content-type'', js ''application/json'')], Some (JsonBody str))) of
        Inl e \<Rightarrow> Inl e
      | Inr (hdrs, bdy) \<Rightarrow>
          (case headers of
             None \<Rightarrow> Inr \<lparr>req_method = method, req_url = url, req_headers = hdrs, req_body = bdy\<rparr>
           | Some props \<Rightarrow>
               if props = [] then
                 Inr \<lparr>req_method = method, req_url = url, req_headers = hdrs, req_body = bdy\<rparr>
               else
                 (case hdrs of
                    None \<Rightarrow> Inl TypeError
                  | Some hs \<Rightarrow>
                      Inr \<lparr>req_method = method, req_url = url,
                           req_headers = Some (foldl set_header hs props), req_body = bdy\<rparr>)))"

text \<open>
  \<open>Q.ajax\<close> throws when the options cannot be built; otherwise it calls \<open>fetch\<close> once, in
  the executor of the promise it returns, and the promise settles as the request does.
\<close>

definition Q_ajax ::
  "browser \<Rightarrow> jsstring \<Rightarrow> jsstring \<Rightarrow> payload option \<Rightarrow> (jsstring \<times> jsstring) list option \<Rightarrow>
   page \<Rightarrow> (js_error + response promise) \<times> page" where
  "Q_ajax br method url data headers pg =
     (case make_options method url data headers of
        Inl e \<Rightarrow> (Inl e, pg)
      | Inr req \<Rightarrow>
          (Inr (case network br req of Inl e \<Rightarrow> Rejected e | Inr res \<Rightarrow> Fulfilled res),
           log_event (Fetch req) pg))"

section \<open>Q.trap_form and Q.load_and_trap\<close>

text \<open>
  \<open>Q.trap_form(action, elem_id, globalSubmitId)\<close>: the selector query, the loop over the
  forms (writes to the document, recorded in the trace), and the call of
  \<open>Q._maybeSetupGlobalDelegate\<close> when \<open>globalSubmitId\<close> is truthy: a non-empty string.
\<close>

definition trap_form ::
  "browser \<Rightarrow> jsstring \<Rightarrow> jsstring \<Rightarrow> jsstring option \<Rightarrow> page \<Rightarrow> (js_error + unit) \<times> page" where
  "trap_form br action elem_id globalSubmitId pg =
     (case find_forms br elem_id of
        Inl e \<Rightarrow> (Inl e, pg)
      | Inr u \<Rightarrow>
          let pg1 = log_event (TrapForms elem_id globalSubmitId) pg
          in if globalSubmitId \<noteq> None \<and> globalSubmitId \<noteq> Some []
             then (Inr (), maybeSetupGlobalDelegate pg1)
             else (Inr (), pg1))"

definition danger :: jsstring where
  "danger = js ''danger''"

text \<open>The object literal with one property, a string that is not a number.\<close>

definition single_arg :: "jsstring \<Rightarrow> jsstring \<Rightarrow> jsobject" where
  "single_arg name str =
     (\<lambda>k. if k = name then Some \<lparr>to_string = str, to_number = None\<rparr> else empty_object k)"

text \<open>
  The callback of \<open>then\<close> in \<open>Q.load_and_trap\<close>. An exception leaves the callback at
  once and rejects the promise; what the callback did before stays done.
\<close>

definition on_response ::
  "browser \<Rightarrow> jsstring \<Rightarrow> jsstring \<Rightarrow> response \<Rightarrow> page \<Rightarrow> unit promise \<times> page" where
  "on_response br url target res pg =
     (if redirected res then (Fulfilled (), log_event (Navigate (res_url res)) pg)
      else
        case find_target br target of
          Inl e \<Rightarrow> (Rejected e, pg)
        | Inr False \<Rightarrow>
            (case T_format (T_translations pg) (js ''Target element not found: <code>{id}</code>'')
                    (Some (single_arg (js ''id'') (js ''#'' @ target))) of
               Inl e \<Rightarrow> (Rejected e, pg)
             | Inr m \<Rightarrow> (Fulfilled (), flash \<lparr>message = m, flash_class = danger\<rparr> pg))
        | Inr True \<Rightarrow>
            (case reinsert_scripts br target (res_data res) of
               Inl e \<Rightarrow> (Rejected e, log_event (SetInnerHTML target (res_data res)) pg)
             | Inr u \<Rightarrow>
                 (case trap_form br url target (global_submit br target)
                         (log_event (SetInnerHTML target (res_data res)) pg) of
                    (Inl e, pg1) \<Rightarrow> (Rejected e, pg1)
                  | (Inr v, pg1) \<Rightarrow>
                      (Fulfilled (),
                       case component_flash res of
                         None \<Rightarrow> pg1
                       | Some hdr \<Rightarrow>
                           if hdr = [] then pg1
                           else
                             (case json_parse br hdr of
                                Inl e \<Rightarrow> flash \<lparr>message = hdr, flash_class = js ''info''\<rparr> pg1
                              | Inr detail \<Rightarrow> flash detail pg1)))))"

text \<open>The callback of \<open>catch\<close> in \<open>Q.load_and_trap\<close>.\<close>

definition on_error :: "js_error \<Rightarrow> page \<Rightarrow> unit promise \<times> page" where
  "on_error err pg =
     (case T_format (T_translations pg) (js ''Ajax component error'') None of
        Inl e \<Rightarrow> (Rejected e, pg)
      | Inr m \<Rightarrow>
          (Fulfilled (),
           log_event (ConsoleError (js ''Ajax component error:'') err)
             (flash \<lparr>message = m, flash_class = danger\<rparr> pg)))"

text \<open>\<open>toLowerCase\<close> on a method name, which is made of ASCII letters.\<close>

definition toLowerCase :: "jsstring \<Rightarrow> jsstring" where
  "toLowerCase str = map (\<lambda>c. if is_upper c then c + 0x20 else c) str"

text \<open>
  The first statements of \<open>Q.load_and_trap\<close>: a falsy \<open>target\<close> (the empty string) is
  flashed, and the function goes on.
\<close>

definition check_target :: "jsstring \<Rightarrow> jsstring \<Rightarrow> page \<Rightarrow> js_error + page" where
  "check_target url target pg =
     (if target = [] then
        (case T_format (T_translations pg)
                (js ''Target element not specified for <code>{url}</code>'')
                (Some (single_arg (js ''url'') url)) of
           Inl e \<Rightarrow> Inl e
         | Inr m \<Rightarrow> Inr (flash \<lparr>message = m, flash_class = danger\<rparr> pg))
      else Inr pg)"

text \<open>
  The request of \<open>Q.load_and_trap\<close>: \<open>Q.ajax(method, url, form_data)\<close> with the method
  \<open>(method || "GET").toLowerCase()\<close>, where \<open>form_data\<close> is a \<open>FormData\<close> or null.
\<close>

definition trap_method :: "jsstring \<Rightarrow> jsstring" where
  "trap_method method = toLowerCase (if method = [] then js ''GET'' else method)"

definition trap_request :: "jsstring \<Rightarrow> jsstring \<Rightarrow> jsstring option \<Rightarrow> request" where
  "trap_request method url form_data =
     \<lparr>req_method = trap_method method, req_url = url, req_headers = None,
      req_body = map_option FormBody form_data\<rparr>"

text \<open>
  \<open>Q.load_and_trap(method, url, form_data, target)\<close>. The result is an exception thrown
  by the call itself, or the promise it returns: the promise of \<open>Q.ajax\<close>, then the
  callback of \<open>then\<close>, then the callback of \<open>catch\<close>.
\<close>

definition load_and_trap ::
  "browser \<Rightarrow> jsstring \<Rightarrow> jsstring \<Rightarrow> jsstring option \<Rightarrow> jsstring \<Rightarrow> page \<Rightarrow>
   (js_error + unit promise) \<times> page" where
  "load_and_trap br method url form_data target pg =
     (case check_target url target pg of
        Inl e \<Rightarrow> (Inl e, pg)
      | Inr pg1 \<Rightarrow>
          (case Q_ajax br (trap_method method) url (map_option FormData form_data) None pg1 of
             (Inl e, pg2) \<Rightarrow> (Inl e, pg2)
           | (Inr (Rejected err), pg2) \<Rightarrow>
               (case on_error err pg2 of (p, pg3) \<Rightarrow> (Inr p, pg3))
           | (Inr (Fulfilled res), pg2) \<Rightarrow>
               (case on_response br url target res pg2 of
                  (Fulfilled u, pg3) \<Rightarrow> (Inr (Fulfilled ()), pg3)
                | (Rejected err, pg3) \<Rightarrow>
                    (case on_error err pg3 of (p, pg4) \<Rightarrow> (Inr p, pg4)))))"

text \<open>
  What the callback of \<open>catch\<close> leaves on a page with its \<open>flash-alerts\<close> element when the
  message \<open>m\<close> has been found: the banner with the class \<open>danger\<close>, then the line of
  \<open>console.error\<close>.
\<close>

definition reported :: "jsstring \<Rightarrow> js_error \<Rightarrow> page \<Rightarrow> page" where
  "reported m err pg =
     pg\<lparr>events := events pg @
        [Banner \<lparr>message = m, flash_class = danger\<rparr>,
         ConsoleError (js ''Ajax component error:'') err]\<rparr>"

text \<open>
  A browser without network, where every request is rejected, and one where the
  requests are answered but the selector for the target is refused. A page whose table
  has, for the message of the callback of \<open>catch\<close>, an entry with the key \<open>2\<close> only.
\<close>

definition offline :: browser where
  "offline =
     \<lparr>network = (\<lambda>req. Inl (Failure (js ''Failed to fetch''))),
      find_target = (\<lambda>tg. Inr True),
      reinsert_scripts = (\<lambda>tg html. Inr ()),
      find_forms = (\<lambda>tg. Inr ()),
      global_submit = (\<lambda>tg. None),
      json_parse = (\<lambda>str. Inl (Failure (js ''SyntaxError'')))\<rparr>"

definition bad_selector :: browser where
  "bad_selector =
     offline\<lparr>network := (\<lambda>req. Inr \<lparr>redirected = False, res_url = req_url req,
                                      res_data = js ''<p>ok</p>'', component_flash = None\<rparr>),
             find_target := (\<lambda>tg. Inl (Failure (js ''SyntaxError'')))\<rparr>"

definition plural_only_page :: page where
  "plural_only_page =
     alerts_page\<lparr>T_translations :=
       Some (object_table [(js ''Ajax component error'', [(js ''2'', js ''Errori'')])])\<rparr>"

section \<open>Q.is_form_changed and Q._ajaxSubmitForm\<close>

text \<open>
  An element matched by \<open>input, textarea, select\<close>, with the properties the code reads.
  A \<open>select\<close> element has no property \<open>defaultValue\<close>: there it is \<open>undefined\<close>, which
  is \<open>None\<close>. A form has the list of these elements in document order, and the
  \<open>disabled\<close> properties of the submit buttons matched by the selector of
  \<open>Q._ajaxSubmitForm\<close>.
\<close>

record control =
  el_disabled :: bool
  el_type :: jsstring
  el_checked :: bool
  el_defaultChecked :: bool
  el_value :: jsstring
  el_defaultValue :: "jsstring option"

record form =
  form_action :: jsstring
  component_target :: "jsstring option"
  controls :: "control list"
  buttons_disabled :: "bool list"

text \<open>The callback of \<open>some\<close>.\<close>

definition control_changed :: "control \<Rightarrow> bool" where
  "control_changed input =
     (if el_disabled input then False
      else if el_type input = js ''checkbox'' \<or> el_type input = js ''radio''
        then el_checked input \<noteq> el_defaultChecked input
      else Some (el_value input) \<noteq> el_defaultValue input)"

definition is_form_changed :: "form \<Rightarrow> bool" where
  "is_form_changed f = list_ex control_changed (controls f)"

text \<open>
  The reading of an unchanged form in words: every control that is not disabled has its
  value equal to its default value, and every checkbox or radio has \<open>checked\<close> equal to
  \<open>defaultChecked\<close>.
\<close>

definition fields_unchanged :: "form \<Rightarrow> bool" where
  "fields_unchanged f \<longleftrightarrow>
     (\<forall>c\<in>set (controls f). \<not> el_disabled c \<longrightarrow> Some (el_value c) = el_defaultValue c) \<and>
     (\<forall>c\<in>set (controls f). el_type c = js ''checkbox'' \<or> el_type c = js ''radio'' \<longrightarrow>
        el_checked c = el_defaultChecked c)"

text \<open>A form with a text input and a checkbox, both as they were loaded.\<close>

definition pristine_form :: form where
  "pristine_form =
     \<lparr>form_action = js ''/save'', component_target = Some (js ''box''),
      controls =
        [\<lparr>el_disabled = False, el_type = js ''text'', el_checked = False,
          el_defaultChecked = False, el_value = js ''Ann'', el_defaultValue = Some (js ''Ann'')\<rparr>,
         \<lparr>el_disabled = False, el_type = js ''checkbox'', el_checked = True,
          el_defaultChecked = True, el_value = js ''on'', el_defaultValue = Some (js ''on'')\<rparr>],
      buttons_disabled = [False]\<rparr>"

text \<open>The same form after the user has typed another name.\<close>

definition edited_form :: form where
  "edited_form =
     pristine_form\<lparr>controls :=
       [\<lparr>el_disabled = False, el_type = js ''text'', el_checked = False,
         el_defaultChecked = False, el_value = js ''Bob'', el_defaultValue = Some (js ''Ann'')\<rparr>]\<rparr>"

text \<open>The callback of \<open>catch\<close> in \<open>Q._ajaxSubmitForm\<close>.\<close>

definition on_submit_error :: "js_error \<Rightarrow> page \<Rightarrow> unit promise \<times> page" where
  "on_submit_error err pg =
     (case T_format (T_translations pg) (js ''Submission error'') None of
        Inl e \<Rightarrow> (Rejected e, pg)
      | Inr m \<Rightarrow>
          (Fulfilled (),
           log_event (ConsoleError (js ''Form submission failed:'') err)
             (flash \<lparr>message = m, flash_class = danger\<rparr> pg)))"

text \<open>
  \<open>new FormData(form)\<close> is determined by the form; \<open>encode\<close> stands for its contents.
  The result has the exception or the promise, the form and the page. When
  \<open>Q.load_and_trap\<close> throws, the callback of \<open>finally\<close> is never attached and the buttons
  stay disabled.
\<close>

definition ajaxSubmitForm ::
  "browser \<Rightarrow> (form \<Rightarrow> jsstring) \<Rightarrow> form \<Rightarrow> page \<Rightarrow> (js_error + unit promise) \<times> form \<times> page" where
  "ajaxSubmitForm br encode f pg =
     (let url = form_action f;
          target = (case component_target f of None \<Rightarrow> [] | Some tg \<Rightarrow> tg)
      in if \<not> is_form_changed f then
           (Inr (Rejected (Error (js ''Form was not changed''))), f, pg)
         else
           let f1 = f\<lparr>buttons_disabled := map (\<lambda>b. True) (buttons_disabled f)\<rparr>;
               form_data = encode f1;
               f2 = f1\<lparr>buttons_disabled := map (\<lambda>b. False) (buttons_disabled f1)\<rparr>
           in case load_and_trap br (js ''POST'') url (Some form_data) target pg of
                (Inl e, pg1) \<Rightarrow> (Inl e, f1, pg1)
              | (Inr (Fulfilled u), pg1) \<Rightarrow> (Inr (Fulfilled ()), f2, pg1)
              | (Inr (Rejected err), pg1) \<Rightarrow>
                  (case on_submit_error err pg1 of (p, pg2) \<Rightarrow> (Inr p, f2, pg2)))"

section \<open>Q.debounce and Q.throttle\<close>

text \<open>
  \<open>setTimeout\<close> returns a new positive handle and puts the callback among the timers of
  the window; \<open>clearTimeout\<close> removes the timer with the handle, if there is one
  (\<open>None\<close> is \<open>undefined\<close> or \<open>null\<close>).
\<close>

definition setTimeout :: "deferred \<Rightarrow> nat \<Rightarrow> page \<Rightarrow> nat \<times> page" where
  "setTimeout cb ms pg =
     (let h = Suc (next_timer pg)
      in (h, log_event (SetTimeout h ms) (pg\<lparr>next_timer := h, timers := timers pg @ [(h, cb)]\<rparr>)))"

definition clearTimeout :: "nat option \<Rightarrow> page \<Rightarrow> page" where
  "clearTimeout h pg =
     log_event (ClearTimeout h) (pg\<lparr>timers := filter (\<lambda>tm. Some (fst tm) \<noteq> h) (timers pg)\<rparr>)"

text \<open>
  The closure that \<open>Q.debounce(func, wait)\<close> returns, with its variable \<open>timeout\<close>;
  \<open>executedFunction\<close> is a call of the closure, \<open>later\<close> the callback it schedules. The
  call \<open>func(...args)\<close> is recorded in the trace.
\<close>

record debounced =
  wait :: nat
  timeout :: "nat option"

definition executedFunction :: "jsstring \<Rightarrow> debounced \<Rightarrow> page \<Rightarrow> debounced \<times> page" where
  "executedFunction args d pg =
     (case setTimeout (Later args) (wait d) (clearTimeout (timeout d) pg) of
        (h, pg1) \<Rightarrow> (d\<lparr>timeout := Some h\<rparr>, pg1))"

definition later :: "jsstring \<Rightarrow> debounced \<Rightarrow> page \<Rightarrow> page" where
  "later args d pg = log_event (Callback args) (clearTimeout (timeout d) pg)"

text \<open>
  The closure that \<open>Q.throttle(callback, delay)\<close> returns, with its variables
  \<open>throttleTimeout\<close> and \<open>storedEvent\<close>, and the callback \<open>release\<close> that it schedules.
  \<open>release\<close> calls the handler at most once, with \<open>throttleTimeout\<close> reset, so the
  handler called from there takes its first branch and does not recur.
\<close>

record throttled =
  delay :: nat
  throttleTimeout :: "nat option"
  storedEvent :: "jsstring option"

definition throttledEventHandler :: "jsstring \<Rightarrow> throttled \<Rightarrow> page \<Rightarrow> throttled \<times> page" where
  "throttledEventHandler ev th pg =
     (if throttleTimeout th = None then
        (case setTimeout Release (delay th) (log_event (Callback ev) pg) of
           (h, pg1) \<Rightarrow> (th\<lparr>storedEvent := None, throttleTimeout := Some h\<rparr>, pg1))
      else (th\<lparr>storedEvent := Some ev\<rparr>, pg))"

definition release :: "throttled \<Rightarrow> page \<Rightarrow> throttled \<times> page" where
  "release th pg =
     (case storedEvent th of
        None \<Rightarrow> (th\<lparr>throttleTimeout := None\<rparr>, pg)
      | Some ev \<Rightarrow> throttledEventHandler ev (th\<lparr>throttleTimeout := None\<rparr>) pg)"

text \<open>The requests and the timer calls of a trace.\<close>

fun is_fetch :: "event \<Rightarrow> bool" where
  "is_fetch (Fetch req) = True"
| "is_fetch e = False"

fun is_timer_call :: "event \<Rightarrow> bool" where
  "is_timer_call (SetTimeout h ms) = True"
| "is_timer_call (ClearTimeout h) = True"
| "is_timer_call e = False"

text \<open>
  The events that \<open>pg'\<close> has after those of \<open>pg\<close>, and whether the trace of \<open>pg'\<close> starts
  with the trace of \<open>pg\<close>.
\<close>

definition new_events :: "page \<Rightarrow> page \<Rightarrow> event list" where
  "new_events pg pg' = drop (length (events pg)) (events pg')"

definition extends :: "page \<Rightarrow> page \<Rightarrow> bool" where
  "extends pg pg' \<longleftrightarrow> take (length (events pg)) (events pg') = events pg"

text \<open>
  From \<open>pg\<close> to \<open>pg'\<close> the trace has grown by at most one request and by no timer
  call.
\<close>

definition one_request_no_timer :: "page \<Rightarrow> page \<Rightarrow> bool" where
  "one_request_no_timer pg pg' \<longleftrightarrow>
     extends pg pg' \<and> length (filter is_fetch (new_events pg pg')) \<le> 1 \<and>
     filter is_timer_call (new_events pg pg') = []"

text \<open>
  A silent step appends events that are neither requests nor timer calls, and leaves the
  table of translations and the installed \<open>Q.flash\<close> as they are.
\<close>

definition silent :: "page \<Rightarrow> page \<Rightarrow> bool" where
  "silent pg pg' \<longleftrightarrow>
     T_translations pg' = T_translations pg \<and> flash_alerts pg' = flash_alerts pg \<and>
     extends pg pg' \<and>
     filter is_fetch (new_events pg pg') = [] \<and> filter is_timer_call (new_events pg pg') = []"

section \<open>The string helpers as calls on the page\<close>

text \<open>
  A call of one of the four string helpers, its result, and the page after the call.
  Of the page the helpers read \<open>T.translations\<close> only, in \<open>T.format\<close>, and assign
  nothing.
\<close>

datatype helper_call =
    Parse_list jsstring
  | Score_password jsstring
  | String_format jsstring jsobject
  | T_format_call jsstring "jsobject option"

datatype helper_result =
    Fields "jsstring list"
  | Score int
  | Formatted jsstring
  | Translated "js_error + jsstring"

fun call_helper :: "helper_call \<Rightarrow> page \<Rightarrow> helper_result \<times> page" where
  "call_helper (Parse_list line) pg = (Fields (parse_list line), pg)"
| "call_helper (Score_password text) pg = (Score (score_password text), pg)"
| "call_helper (String_format str args) pg = (Formatted (format str args), pg)"
| "call_helper (T_format_call text args) pg = (Translated (T_format (T_translations pg) text args), pg)"

section \<open>Properties of Q.parse_list\<close>

lemma delimiters_distinct [simp]:
  "comma \<noteq> dquote" "dquote \<noteq> comma" "comma \<noteq> space" "dquote \<noteq> space"
  "space \<noteq> comma" "space \<noteq> dquote"
  "backslash \<noteq> dquote" "backslash \<noteq> comma" "\<not> is_space comma" "\<not> is_space dquote"
  "is_space space"
  by (simp_all add: comma_def dquote_def space_def backslash_def is_space_def)

lemma parse_loop_unquoted:
  "comma \<notin> set e \<Longrightarrow> dquote \<notin> set e \<Longrightarrow> \<not> q st \<Longrightarrow>
   parse_loop (e @ rest) st = parse_loop rest (st\<lparr>s := s st @ e\<rparr>)"
proof (induction e arbitrary: st)
  case Nil
  then show ?case by simp
next
  case (Cons c e)
  from Cons.prems have "c \<noteq> comma" "c \<noteq> dquote" by auto
  then have step: "parse_step False c st = st\<lparr>s := s st @ [c]\<rparr>"
    using Cons.prems by (simp add: parse_step_def)
  show ?case
    using Cons.IH [of "st\<lparr>s := s st @ [c]\<rparr>"] Cons.prems by (simp add: step)
qed

lemma trim_padded:
  assumes "\<forall>c\<in>set w. is_space c" "e \<noteq> []" "\<not> is_space (hd e)" "\<not> is_space (last e)"
  shows "trim (w @ e) = e"
proof -
  have "dropWhile is_space (w @ e) = e"
    using assms by (cases e) (simp_all add: dropWhile_append2)
  moreover have "dropWhile is_space (rev e) = rev e"
    using assms by (cases e rule: rev_cases) simp_all
  ultimately show ?thesis by (simp add: trim_def)
qed

lemma parse_loop_join:
  "\<forall>e\<in>set (x # xs). plain_tag e \<Longrightarrow> \<not> q st \<Longrightarrow> \<forall>c\<in>set (s st). is_space c \<Longrightarrow>
   parse_loop (join [comma, space] (x # xs)) st = st\<lparr>a := a st @ x # xs, s := []\<rparr>"
proof (induction xs arbitrary: x st)
  case Nil
  then have x: "comma \<notin> set x" "dquote \<notin> set x" "trim (s st @ x) = x"
    by (simp_all add: plain_tag_def trim_padded)
  have "parse_loop (x @ []) st = parse_loop [] (st\<lparr>s := s st @ x\<rparr>)"
    using x Nil.prems by (intro parse_loop_unquoted) simp_all
  then show ?case using x Nil.prems by (simp add: parse_step_def)
next
  case (Cons y ys)
  then have x: "comma \<notin> set x" "dquote \<notin> set x" "trim (s st @ x) = x"
    by (simp_all add: plain_tag_def trim_padded)
  let ?rest = "comma # space # join [comma, space] (y # ys)"
  let ?st1 = "st\<lparr>a := a st @ [x], s := [space]\<rparr>"
  have "parse_loop (x @ ?rest) st = parse_loop ?rest (st\<lparr>s := s st @ x\<rparr>)"
    using x Cons.prems by (intro parse_loop_unquoted) simp_all
  also have "\<dots> = parse_loop (join [comma, space] (y # ys)) ?st1"
    using x Cons.prems
    by (simp add: parse_step_def)
  also have "\<dots> = ?st1\<lparr>a := a ?st1 @ y # ys, s := []\<rparr>"
    using Cons.prems by (intro Cons.IH) simp_all
  finally show ?case by simp
qed

text \<open>
  Claim C8. For every array \<open>xs\<close> of strings, each non-empty, without comma, double
  quote and backslash, and without whitespace at either end, \<open>Q.parse_list(xs.join(', '))\<close>
  is \<open>xs\<close>; the empty array included, whose join is the empty string.
\<close>

theorem parse_list_join_roundtrip:
  assumes "\<forall>e\<in>set xs. plain_tag e"
  shows "parse_list (join (js '', '') xs) = xs"
proof (cases xs)
  case Nil
  then show ?thesis by (simp add: parse_list_def)
next
  case (Cons x ys)
  have sep: "js '', '' = [comma, space]"
    by (simp add: js_def comma_def space_def)
  have "x \<noteq> []" using assms Cons by (simp add: plain_tag_def)
  then have ne: "join [comma, space] (x # ys) \<noteq> []"
    by (cases ys) simp_all
  have "parse_loop (join [comma, space] (x # ys)) pl_init = pl_init\<lparr>a := a pl_init @ x # ys, s := []\<rparr>"
    using assms Cons by (intro parse_loop_join) (simp_all add: pl_init_def)
  then show ?thesis using ne Cons by (simp add: parse_list_def sep pl_init_def)
qed

theorem parse_list_join_roundtrip_witness:
  "plain_tag (js ''red'') \<and> plain_tag (js ''dark blue'') \<and> plain_tag (js ''x'') \<and>
   join (js '', '') [js ''red'', js ''dark blue'', js ''x''] = js ''red, dark blue, x'' \<and>
   parse_list (js ''red, dark blue, x'') = [js ''red'', js ''dark blue'', js ''x'']"
proof -
  have tags: "plain_tag (js ''red'')" "plain_tag (js ''dark blue'')" "plain_tag (js ''x'')"
    by (simp_all add: plain_tag_def js_def comma_def dquote_def backslash_def is_space_def)
  then have h: "\<forall>e\<in>set [js ''red'', js ''dark blue'', js ''x'']. plain_tag e"
    by simp
  have j: "join (js '', '') [js ''red'', js ''dark blue'', js ''x''] = js ''red, dark blue, x''"
    by (simp add: js_def)
  show ?thesis using tags j parse_list_join_roundtrip [OF h] by simp
qed

lemma parse_loop_foldl:
  "parse_loop line st = parse_step True comma (foldl (\<lambda>st c. parse_step False c st) st line)"
  by (induction line arbitrary: st) simp_all

text \<open>
  A line whose scan ends outside double quotes has at least one field, and a line whose
  scan ends inside double quotes has the fields pushed before its end and no other.
\<close>

lemma parse_list_closed_quotes:
  "line \<noteq> [] \<Longrightarrow> \<not> q (scan_line line) \<Longrightarrow>
   parse_list line = a (scan_line line) @ [trim (s (scan_line line))]"
  by (simp add: parse_list_def parse_loop_foldl scan_line_def parse_step_def)

lemma parse_list_open_quote:
  "line \<noteq> [] \<Longrightarrow> q (scan_line line) \<Longrightarrow> parse_list line = a (scan_line line)"
  by (simp add: parse_list_def parse_loop_foldl scan_line_def parse_step_def)

text \<open>
  Claim C2. The claim says that the scan of a non-empty input always produces at least
  one field. A line that ends inside double quotes produces none for its last field:
  at the end of the line the flag \<open>q\<close> is still set, the comma that stands for the end
  is appended to \<open>s\<close>, and nothing is pushed. For the four code units \<open>"abc\<close> the result
  is the empty array.
\<close>

theorem parse_list_unclosed_quote:
  "parse_list (dquote # js ''abc'') = [] \<and> dquote # js ''abc'' \<noteq> []"
  by (simp add: parse_list_def pl_init_def parse_step_def js_def dquote_def comma_def
        backslash_def)

section \<open>Properties of String.prototype.format\<close>

lemma takeWhile_upto:
  "x \<notin> set k \<Longrightarrow> takeWhile (\<lambda>y. y \<noteq> x) (k @ x # rest) = k"
  by (induction k) auto

lemma dropWhile_upto:
  "x \<notin> set k \<Longrightarrow> dropWhile (\<lambda>y. y \<noteq> x) (k @ x # rest) = x # rest"
  by (induction k) auto

lemma match_placeholder_iff:
  "match_placeholder str = Some (k, rest) \<longleftrightarrow> placeholder_at str [] k rest"
proof
  assume "match_placeholder str = Some (k, rest)"
  then obtain cs where str: "str = lbrace # cs"
    and k: "k = takeWhile (\<lambda>x. x \<noteq> rbrace) cs" "k \<noteq> []"
    and r: "dropWhile (\<lambda>x. x \<noteq> rbrace) cs \<noteq> []" "rest = tl (dropWhile (\<lambda>x. x \<noteq> rbrace) cs)"
    by (auto simp: match_placeholder_def Let_def split: list.splits if_splits)
  from r(1) have "hd (dropWhile (\<lambda>x. x \<noteq> rbrace) cs) = rbrace"
    using hd_dropWhile [of "\<lambda>x. x \<noteq> rbrace" cs] by simp
  with r have "dropWhile (\<lambda>x. x \<noteq> rbrace) cs = rbrace # rest"
    by (cases "dropWhile (\<lambda>x. x \<noteq> rbrace) cs") simp_all
  then have "cs = k @ rbrace # rest"
    using takeWhile_dropWhile_id [of "\<lambda>x. x \<noteq> rbrace" cs] k by simp
  moreover have "rbrace \<notin> set k"
    using k by (auto dest: set_takeWhileD)
  ultimately show "placeholder_at str [] k rest"
    using str k by (simp add: placeholder_at_def)
next
  assume "placeholder_at str [] k rest"
  then have str: "str = lbrace # k @ rbrace # rest" and k: "k \<noteq> []" "rbrace \<notin> set k"
    by (simp_all add: placeholder_at_def)
  from k have "takeWhile (\<lambda>x. x \<noteq> rbrace) (k @ rbrace # rest) = k"
    by (simp add: takeWhile_upto)
  moreover from k have "dropWhile (\<lambda>x. x \<noteq> rbrace) (k @ rbrace # rest) = rbrace # rest"
    by (simp add: dropWhile_upto)
  ultimately show "match_placeholder str = Some (k, rest)"
    using str k by (simp add: match_placeholder_def)
qed

lemma placeholder_at_Cons:
  "placeholder_at cs u k v \<Longrightarrow> placeholder_at (c # cs) (c # u) k v"
  by (simp add: placeholder_at_def)

lemma format_no_placeholder:
  "(\<nexists>u k v. placeholder_at str u k v) \<Longrightarrow> format str args = str"
proof (induction str)
  case Nil
  then show ?case by simp
next
  case (Cons c cs)
  have "match_placeholder (c # cs) = None"
  proof (rule ccontr)
    assume "match_placeholder (c # cs) \<noteq> None"
    then obtain k rest where "match_placeholder (c # cs) = Some (k, rest)" by auto
    then have "placeholder_at (c # cs) [] k rest" by (simp add: match_placeholder_iff)
    with Cons.prems show False by blast
  qed
  moreover have "\<nexists>u k v. placeholder_at cs u k v"
    using Cons.prems placeholder_at_Cons by blast
  ultimately show ?case using Cons.IH by simp
qed

lemma format_leftmost:
  "placeholder_at str u k v \<Longrightarrow>
   (\<forall>u' k' v'. placeholder_at str u' k' v' \<longrightarrow> length u \<le> length u') \<Longrightarrow>
   format str args = u @ lookup_string args k @ format v args"
proof (induction u arbitrary: str)
  case Nil
  then have m: "match_placeholder str = Some (k, v)" by (simp add: match_placeholder_iff)
  then obtain c cs where "str = c # cs"
    by (cases str) (simp_all add: match_placeholder_def)
  with m show ?case by simp
next
  case (Cons c u)
  then obtain cs where str: "str = c # cs" and cs: "placeholder_at cs u k v"
    by (auto simp: placeholder_at_def)
  have none: "match_placeholder (c # cs) = None"
  proof (rule ccontr)
    assume "match_placeholder (c # cs) \<noteq> None"
    then obtain k' rest where "match_placeholder (c # cs) = Some (k', rest)" by auto
    then have "placeholder_at str [] k' rest" by (simp add: match_placeholder_iff str)
    with Cons.prems(2) show False by fastforce
  qed
  have "\<forall>u' k' v'. placeholder_at cs u' k' v' \<longrightarrow> length u \<le> length u'"
  proof (intro allI impI)
    fix u' k' v' assume "placeholder_at cs u' k' v'"
    then have "placeholder_at str (c # u') k' v'" by (simp add: str placeholder_at_Cons)
    with Cons.prems(2) have "length (c # u) \<le> length (c # u')" by blast
    then show "length u \<le> length u'" by simp
  qed
  with cs have "format cs args = u @ lookup_string args k @ format v args"
    by (rule Cons.IH)
  with none show ?case by (simp add: str)
qed

lemma placeholder_after_prefix:
  assumes "lbrace \<notin> set u" "placeholder_at (u @ w) u' k' v'"
  shows "length u \<le> length u'"
proof (rule ccontr)
  assume "\<not> length u \<le> length u'"
  then have less: "length u' < length u" by simp
  from assms(2) have "(u @ w) ! length u' = lbrace"
    by (simp add: placeholder_at_def nth_append)
  with less have "u ! length u' = lbrace" by (simp add: nth_append)
  with less assms(1) show False by (metis nth_mem)
qed

lemma no_placeholder_without_brace:
  "lbrace \<notin> set str \<Longrightarrow> \<nexists>u k v. placeholder_at str u k v"
  by (auto simp: placeholder_at_def)

text \<open>
  Claim C3. \<open>s.format(args)\<close> is \<open>s\<close> with every placeholder \<open>{k}\<close>, where \<open>k\<close> is a non-empty
  run without closing brace, replaced by \<open>args[k]\<close> as a string, \<open>undefined\<close> when \<open>args\<close>
  has no property \<open>k\<close>; a string without placeholder is returned unchanged. The
  placeholders are taken from the left: the leftmost one is replaced and the rest of the
  string after it is formatted in the same way.
\<close>

theorem format_replaces_placeholders:
  "((\<nexists>u k v. placeholder_at str u k v) \<longrightarrow> format str args = str) \<and>
   (\<forall>u k v. placeholder_at str u k v \<and>
        (\<forall>u' k' v'. placeholder_at str u' k' v' \<longrightarrow> length u \<le> length u') \<longrightarrow>
      format str args = u @ lookup_string args k @ format v args) \<and>
   (\<forall>k. lookup_string args k =
      (case args k of None \<Rightarrow> js ''undefined'' | Some x \<Rightarrow> to_string x))"
  using format_no_placeholder [of str args] format_leftmost [of str _ _ _ args]
  by (simp add: lookup_string_def)

theorem format_replaces_placeholders_witness:
  "placeholder_at (js ''bla {a} bla {b}.'') (js ''bla '') (js ''a'') (js '' bla {b}.'') \<and>
   (\<nexists>u' k' v'. placeholder_at (js ''bla {a} bla {b}.'') u' k' v' \<and>
      length u' < length (js ''bla '')) \<and>
   (\<nexists>u k v. placeholder_at (js ''.'') u k v) \<and>
   format (js ''bla {a} bla {b}.'') (single_arg (js ''a'') (js ''hello'')) =
     js ''bla hello bla undefined.''"
proof -
  let ?args = "single_arg (js ''a'') (js ''hello'')"
  have p1: "placeholder_at (js ''bla {a} bla {b}.'') (js ''bla '') (js ''a'') (js '' bla {b}.'')"
    by (simp add: placeholder_at_def js_def lbrace_def rbrace_def)
  have l1: "\<forall>u' k' v'. placeholder_at (js ''bla {a} bla {b}.'') u' k' v' \<longrightarrow>
      length (js ''bla '') \<le> length u'"
  proof (intro allI impI)
    fix u' k' v' assume "placeholder_at (js ''bla {a} bla {b}.'') u' k' v'"
    then have "placeholder_at (js ''bla '' @ js ''{a} bla {b}.'') u' k' v'"
      by (simp add: js_def)
    moreover have "lbrace \<notin> set (js ''bla '')" by (simp add: js_def lbrace_def)
    ultimately show "length (js ''bla '') \<le> length u'"
      by (rule placeholder_after_prefix [rotated])
  qed
  have p2: "placeholder_at (js '' bla {b}.'') (js '' bla '') (js ''b'') (js ''.'')"
    by (simp add: placeholder_at_def js_def lbrace_def rbrace_def)
  have l2: "\<forall>u' k' v'. placeholder_at (js '' bla {b}.'') u' k' v' \<longrightarrow>
      length (js '' bla '') \<le> length u'"
  proof (intro allI impI)
    fix u' k' v' assume "placeholder_at (js '' bla {b}.'') u' k' v'"
    then have "placeholder_at (js '' bla '' @ js ''{b}.'') u' k' v'"
      by (simp add: js_def)
    moreover have "lbrace \<notin> set (js '' bla '')" by (simp add: js_def lbrace_def)
    ultimately show "length (js '' bla '') \<le> length u'"
      by (rule placeholder_after_prefix [rotated])
  qed
  have n3: "\<nexists>u k v. placeholder_at (js ''.'') u k v"
    by (rule no_placeholder_without_brace) (simp add: js_def lbrace_def)
  have f3: "format (js ''.'') ?args = js ''.''"
    using format_replaces_placeholders [of "js ''.''" ?args] n3 by blast
  have f2: "format (js '' bla {b}.'') ?args =
      js '' bla '' @ lookup_string ?args (js ''b'') @ format (js ''.'') ?args"
    using format_replaces_placeholders [of "js '' bla {b}.''" ?args] p2 l2 by blast
  have f1: "format (js ''bla {a} bla {b}.'') ?args =
      js ''bla '' @ lookup_string ?args (js ''a'') @ format (js '' bla {b}.'') ?args"
    using format_replaces_placeholders [of "js ''bla {a} bla {b}.''" ?args] p1 l1 by blast
  have "format (js ''bla {a} bla {b}.'') ?args = js ''bla hello bla undefined.''"
    unfolding f1 f2 f3
    by (simp add: lookup_string_def single_arg_def empty_object_def prototype_methods_def js_def)
  moreover from l1 have "\<nexists>u' k' v'. placeholder_at (js ''bla {a} bla {b}.'') u' k' v' \<and>
      length u' < length (js ''bla '')"
    by (meson not_less)
  ultimately show ?thesis using p1 n3 by blast
qed

section \<open>Properties of T.format\<close>

lemma digit_cases: "d < 10 \<Longrightarrow> d \<in> {0, 1, 2, 3, 4, 5, 6, 7, 8, 9 :: nat}"
  by auto

lemma digit_of_digit_char: "d < 10 \<Longrightarrow> digit_of (digit_char d) = Some d"
  by (drule digit_cases) (auto simp: digit_of_def digit_char_def)

lemma digit_char_plain:
  "d < 10 \<Longrightarrow> \<not> is_space (digit_char d) \<and> digit_char d \<noteq> 0x2B \<and> digit_char d \<noteq> 0x2D \<and>
     digit_char d \<noteq> 0x78 \<and> digit_char d \<noteq> 0x58"
  by (drule digit_cases) (auto simp: is_space_def digit_char_def)

lemma radix_digit_char: "d < 10 \<Longrightarrow> radix_digit 10 (digit_char d)"
  by (simp add: radix_digit_def digit_of_digit_char)

lemma decimal_digits: "list_all (radix_digit 10) (decimal i) \<and> decimal i \<noteq> []"
proof (induction i rule: decimal.induct)
  case (1 i)
  show ?case
  proof (cases "i < 10")
    case True
    then show ?thesis by (simp add: decimal.simps [of i] radix_digit_char)
  next
    case False
    then show ?thesis
      using 1 by (simp add: decimal.simps [of i] radix_digit_char)
  qed
qed

lemma digits_value_snoc:
  "digits_value r (ds @ [c]) = digits_value r ds * r + (case digit_of c of None \<Rightarrow> 0 | Some d \<Rightarrow> d)"
  by (simp add: digits_value_def)

lemma digits_value_decimal: "digits_value 10 (decimal i) = i"
proof (induction i rule: decimal.induct)
  case (1 i)
  show ?case
  proof (cases "i < 10")
    case True
    then show ?thesis
      by (simp add: decimal.simps [of i] digits_value_def digit_of_digit_char)
  next
    case False
    then have "digits_value 10 (decimal (i div 10)) = i div 10" using 1 by simp
    then show ?thesis
      using False by (simp add: decimal.simps [of i] digits_value_snoc digit_of_digit_char)
  qed
qed

lemma decimal_inj: "decimal i = decimal j \<Longrightarrow> i = j"
  by (metis digits_value_decimal)

lemma array_index_decimal:
  "array_index (decimal i) = (if i < 4294967295 then Some i else None)"
  by (simp add: array_index_def decimal_digits digits_value_decimal)

lemma hd_decimal: "\<exists>d<10. hd (decimal i) = digit_char d"
proof (induction i rule: decimal.induct)
  case (1 i)
  show ?case
  proof (cases "i < 10")
    case True
    then show ?thesis by (auto simp: decimal.simps [of i])
  next
    case False
    then show ?thesis
      using 1 decimal_digits [of "i div 10"] by (simp add: decimal.simps [of i])
  qed
qed

lemma takeWhile_all: "list_all P xs \<Longrightarrow> takeWhile P xs = xs"
  by (induction xs) simp_all

lemma not_hex_prefix:
  assumes "list_all (radix_digit 10) ds"
  shows "take 2 ds \<noteq> js ''0x'' \<and> take 2 ds \<noteq> js ''0X''"
proof (cases ds)
  case Nil
  then show ?thesis by (simp add: js_def)
next
  case (Cons c cs)
  show ?thesis
  proof (cases cs)
    case Nil
    with Cons show ?thesis by (simp add: js_def)
  next
    case (Cons c' cs')
    with assms \<open>ds = c # cs\<close> have "radix_digit 10 c'" by simp
    then have "c' \<noteq> 0x78 \<and> c' \<noteq> 0x58"
      by (auto simp: radix_digit_def digit_of_def split: if_splits)
    with Cons \<open>ds = c # cs\<close> show ?thesis by (simp add: js_def)
  qed
qed

lemma parse_int_decimal: "parse_int (decimal i) = Some (int i)"
proof -
  obtain d where d: "d < 10" "hd (decimal i) = digit_char d"
    using hd_decimal by blast
  have ne: "decimal i \<noteq> []" and all: "list_all (radix_digit 10) (decimal i)"
    using decimal_digits by simp_all
  from d ne digit_char_plain [of d] have sp: "dropWhile is_space (decimal i) = decimal i"
    by (cases "decimal i") simp_all
  from d digit_char_plain [of d]
  have sign: "hd (decimal i) \<noteq> 0x2B" "hd (decimal i) \<noteq> 0x2D" by simp_all
  show ?thesis
    using all ne sign not_hex_prefix [OF all]
    by (simp add: parse_int_def sp takeWhile_all digits_value_decimal)
qed

lemma number_key_nat: "number_key (int i) = decimal i"
  by (simp add: number_key_def)

lemma map_of_numbered: "map_of (numbered ks) (decimal k) = map_of ks k"
  by (induction ks) (auto simp: numbered_def dest: decimal_inj)

lemma own_keys_numbered: "set (own_keys (numbered ks)) = decimal ` fst ` set ks"
  by (force simp: own_keys_def numbered_def)

text \<open>
  The keys of a numbered entry below the bound are all array indices, so the loop
  visits them in ascending order.
\<close>

lemma for_in_keys_numbered:
  assumes "\<forall>i\<in>fst ` set ks. i < 4294967295"
  shows "set (for_in_keys (numbered ks)) = decimal ` fst ` set ks"
    and "sorted (map index_value (for_in_keys (numbered ks)))"
proof -
  have idx: "array_index key \<noteq> None" if "key \<in> set (own_keys (numbered ks))" for key
    using that assms by (auto simp: own_keys_numbered array_index_decimal)
  then have f1: "filter (\<lambda>key. array_index key \<noteq> None) (own_keys (numbered ks)) =
      own_keys (numbered ks)"
    by (simp add: filter_id_conv)
  from idx have f2: "filter (\<lambda>key. array_index key = None) (own_keys (numbered ks)) = []"
    by (simp add: filter_empty_conv)
  show "set (for_in_keys (numbered ks)) = decimal ` fst ` set ks"
    unfolding for_in_keys_def f1 f2 by (simp add: own_keys_numbered)
  show "sorted (map index_value (for_in_keys (numbered ks)))"
    unfolding for_in_keys_def f1 f2 by simp
qed

lemma choose_key_break:
  "\<forall>key\<in>set keys. \<not> js_le (parse_int key) n \<Longrightarrow> choose_key keys n k = k"
  by (cases keys) simp_all

lemma choose_key_ascending:
  assumes "\<forall>key\<in>set keys. parse_int key = Some (int (index_value key))"
    and "sorted (map index_value keys)"
    and "to_number n = Some m"
    and "\<exists>key\<in>set keys. int (index_value key) \<le> m"
  shows "choose_key keys n k = int (Max {i \<in> index_value ` set keys. int i \<le> m})"
  using assms
proof (induction keys arbitrary: k)
  case Nil
  then show ?case by simp
next
  case (Cons key keys)
  let ?v = index_value
  have le: "js_le (parse_int key') n \<longleftrightarrow> int (?v key') \<le> m" if "key' \<in> set (key # keys)" for key'
    using that Cons.prems(1,3) by (auto simp: js_le_def)
  from Cons.prems(2,4) have first: "int (?v key) \<le> m"
    by (auto intro: order_trans)
  have step: "choose_key (key # keys) n k = choose_key keys n (int (?v key))"
    using first le [of key] Cons.prems(1) by simp
  show ?case
  proof (cases "\<exists>key'\<in>set keys. int (?v key') \<le> m")
    case True
    have "choose_key keys n (int (?v key)) = int (Max {i \<in> ?v ` set keys. int i \<le> m})"
      using Cons.prems True by (intro Cons.IH) simp_all
    moreover have "Max {i \<in> ?v ` set (key # keys). int i \<le> m} = Max {i \<in> ?v ` set keys. int i \<le> m}"
    proof -
      let ?S = "{i \<in> ?v ` set keys. int i \<le> m}"
      from True obtain j where j: "j \<in> ?S" by auto
      have fin: "finite ?S" by simp
      have "?v key \<le> j" using Cons.prems(2) j by auto
      also have "j \<le> Max ?S" using fin j by (rule Max_ge)
      finally have small: "?v key \<le> Max ?S" .
      have "{i \<in> ?v ` set (key # keys). int i \<le> m} = insert (?v key) ?S"
        using first by auto
      moreover have "Max (insert (?v key) ?S) = max (?v key) (Max ?S)"
        using fin j by (intro Max_insert) auto
      ultimately show ?thesis using small by (simp add: max_def)
    qed
    ultimately show ?thesis using step by simp
  next
    case False
    then have "\<forall>key'\<in>set keys. \<not> js_le (parse_int key') n"
      using le by auto
    then have "choose_key keys n (int (?v key)) = int (?v key)"
      by (rule choose_key_break)
    moreover have "{i \<in> ?v ` set (key # keys). int i \<le> m} = {?v key}"
      using False first by auto
    ultimately show ?thesis using step by simp
  qed
qed

lemma choose_key_numbered:
  assumes "\<forall>i\<in>fst ` set ks. i < 4294967295"
  shows "choose_key (for_in_keys (numbered ks)) n 0 = int (plural_key ks (to_number n))"
proof -
  let ?keys = "for_in_keys (numbered ks)"
  have keys: "set ?keys = decimal ` fst ` set ks" and srt: "sorted (map index_value ?keys)"
    using for_in_keys_numbered [OF assms] by simp_all
  have val: "index_value (decimal i) = i" if "i \<in> fst ` set ks" for i
    using that assms by (force simp: index_value_def array_index_decimal)
  have img: "index_value ` set ?keys = fst ` set ks"
    unfolding keys using val by force
  have parse: "\<forall>key\<in>set ?keys. parse_int key = Some (int (index_value key))"
    unfolding keys using val by (auto simp: parse_int_decimal)
  show ?thesis
  proof (cases "to_number n")
    case None
    then have "\<forall>key\<in>set ?keys. \<not> js_le (parse_int key) n"
      by (simp add: js_le_def split: option.splits)
    then show ?thesis using None by (simp add: choose_key_break plural_key_def)
  next
    case (Some m)
    show ?thesis
    proof (cases "\<exists>i\<in>fst ` set ks. int i \<le> m")
      case True
      then have "\<exists>key\<in>set ?keys. int (index_value key) \<le> m"
        using img by (metis (no_types, lifting) image_iff)
      then have "choose_key ?keys n 0 = int (Max {i \<in> index_value ` set ?keys. int i \<le> m})"
        using parse srt Some by (intro choose_key_ascending) simp_all
      then show ?thesis using True Some by (simp add: plural_key_def img)
    next
      case False
      have "\<not> int (index_value key) \<le> m" if "key \<in> set ?keys" for key
      proof -
        from that img have "index_value key \<in> fst ` set ks" by blast
        with False show ?thesis by blast
      qed
      then have "\<forall>key\<in>set ?keys. \<not> js_le (parse_int key) n"
        using parse Some by (auto simp: js_le_def)
      then show ?thesis using False Some by (simp add: choose_key_break plural_key_def)
    qed
  qed
qed

text \<open>
  Claim C10, as amended. \<open>T.format(text, args)\<close> takes \<open>n = args.n\<close> when \<open>args\<close> has a
  property \<open>n\<close> and \<open>n = 1\<close> otherwise. When \<open>T.translations[text]\<close> is an entry whose keys
  are array indices, the key used is the largest key of the entry that is at most \<open>n\<close>,
  and \<open>0\<close> when no key is, and when the entry has a translation under that key, the
  translation is formatted with \<open>args\<close> and returned. When \<open>T.translations[text]\<close> is
  undefined, which for a table that is a plain object means that \<open>text\<close> is neither a
  property of its own nor one inherited from \<open>Object.prototype\<close>, the text itself is
  formatted with \<open>args\<close> and returned.
\<close>

theorem T_format_plural_rule:
  fixes tbl :: "table option" and args0 :: "jsobject option" and msg :: jsstring
  defines "args \<equiv> (case args0 of None \<Rightarrow> empty_object | Some obj \<Rightarrow> obj)"
  defines "n \<equiv> (case args (js ''n'') of Some v \<Rightarrow> v | None \<Rightarrow> js_one)"
  defines "entry \<equiv> (case tbl of None \<Rightarrow> object_table [] msg | Some tb \<Rightarrow> tb msg)"
  shows "(\<forall>ks tr. entry = Some (numbered ks) \<and> (\<forall>i\<in>fst ` set ks. i < 4294967295) \<and>
            map_of ks (plural_key ks (to_number n)) = Some tr \<longrightarrow>
            T_format tbl msg args0 = Inr (format tr args)) \<and>
         (entry = None \<longrightarrow> T_format tbl msg args0 = Inr (format msg args)) \<and>
         (\<forall>props. tbl = Some (object_table props) \<and> map_of props msg = None \<and>
            empty_object msg = None \<longrightarrow> entry = None)"
proof (intro conjI allI impI)
  fix ks tr
  assume h: "entry = Some (numbered ks) \<and> (\<forall>i\<in>fst ` set ks. i < 4294967295) \<and>
            map_of ks (plural_key ks (to_number n)) = Some tr"
  then have "choose_key (for_in_keys (numbered ks)) n 0 = int (plural_key ks (to_number n))"
    by (simp add: choose_key_numbered)
  then have "map_of (numbered ks) (number_key (choose_key (for_in_keys (numbered ks)) n 0)) = Some tr"
    using h by (simp add: number_key_nat map_of_numbered)
  then show "T_format tbl msg args0 = Inr (format tr args)"
    using h unfolding args_def n_def entry_def by (simp add: T_format_def Let_def)
next
  assume "entry = None"
  then show "T_format tbl msg args0 = Inr (format msg args)"
    unfolding args_def n_def entry_def by (simp add: T_format_def Let_def)
next
  fix props
  assume "tbl = Some (object_table props) \<and> map_of props msg = None \<and> empty_object msg = None"
  then show "entry = None"
    unfolding entry_def by (simp add: object_table_def)
qed

lemma decimal_small [simp]:
  "decimal 0 = js ''0''" "decimal (Suc 0) = js ''1''" "decimal 2 = js ''2''"
  "decimal 10 = js ''10''"
  by (simp_all add: decimal.simps [of 0] decimal.simps [of "Suc 0"] decimal.simps [of 2]
        decimal.simps [of 10] decimal.simps [of 1] digit_char_def js_def)

theorem T_format_plural_rule_witness:
  "list_all (\<lambda>i. i < 4294967295) (map fst
     [(0::nat, js ''no cane''), (1, js ''un cane''), (2, js ''{n} cani''), (10, js ''tanti cani'')]) \<and>
   map_of [(0::nat, js ''no cane''), (1, js ''un cane''), (2, js ''{n} cani''), (10, js ''tanti cani'')]
     (plural_key
        [(0, js ''no cane''), (1, js ''un cane''), (2, js ''{n} cani''), (10, js ''tanti cani'')]
        (Some 2)) = Some (js ''{n} cani'') \<and>
   T_format
     (Some (object_table [(js ''dog'', numbered
        [(0, js ''no cane''), (1, js ''un cane''), (2, js ''{n} cani''), (10, js ''tanti cani'')])]))
     (js ''dog'') (Some (count_arg 2)) = Inr (js ''2 cani'') \<and>
   T_format
     (Some (object_table [(js ''dog'', numbered
        [(0, js ''no cane''), (1, js ''un cane''), (2, js ''{n} cani''), (10, js ''tanti cani'')])]))
     (js ''dog'') (Some (count_arg 7)) = Inr (js ''7 cani'') \<and>
   T_format
     (Some (object_table [(js ''dog'', numbered
        [(0, js ''no cane''), (1, js ''un cane''), (2, js ''{n} cani''), (10, js ''tanti cani'')])]))
     (js ''dog'') (Some (count_arg (- 3))) = Inr (js ''no cane'') \<and>
   map_of [(js ''dog'', numbered [(0, js ''no cane'')])] (js ''cat'') = None \<and>
   empty_object (js ''cat'') = None \<and>
   T_format (Some (object_table [(js ''dog'', numbered [(0, js ''no cane'')])])) (js ''cat'') None =
     Inr (js ''cat'')"
proof -
  let ?ks = "[(0::nat, js ''no cane''), (1, js ''un cane''), (2, js ''{n} cani''), (10, js ''tanti cani'')]"
  let ?tbl = "Some (object_table [(js ''dog'', numbered ?ks)])"
  have bound: "\<forall>i\<in>fst ` set ?ks. i < 4294967295" by simp
  have dog: "object_table [(js ''dog'', numbered ?ks)] (js ''dog'') = Some (numbered ?ks)"
    by (simp add: object_table_def)
  have n2: "(case count_arg 2 (js ''n'') of Some v \<Rightarrow> v | None \<Rightarrow> js_one) =
      \<lparr>to_string = js ''2'', to_number = Some 2\<rparr>"
    by (simp add: count_arg_def number_key_def)
  have n7: "(case count_arg 7 (js ''n'') of Some v \<Rightarrow> v | None \<Rightarrow> js_one) =
      \<lparr>to_string = js ''7'', to_number = Some 7\<rparr>"
    by (simp add: count_arg_def number_key_def decimal.simps [of 7] digit_char_def js_def)
  have "{i \<in> fst ` set ?ks. int i \<le> 2} = {0, 1, 2}" by auto
  then have k2: "plural_key ?ks (Some 2) = 2" by (simp add: plural_key_def)
  have "{i \<in> fst ` set ?ks. int i \<le> 7} = {0, 1, 2}" by auto
  then have k7: "plural_key ?ks (Some 7) = 2" by (simp add: plural_key_def)
  have m2: "map_of ?ks (plural_key ?ks (Some 2)) = Some (js ''{n} cani'')"
    unfolding k2 by simp
  have m7: "map_of ?ks (plural_key ?ks (Some 7)) = Some (js ''{n} cani'')"
    unfolding k7 by simp
  have "T_format ?tbl (js ''dog'') (Some (count_arg 2)) = Inr (format (js ''{n} cani'') (count_arg 2))"
    using T_format_plural_rule [where tbl = ?tbl and msg = "js ''dog''"
        and ?args0.0 = "Some (count_arg 2)"] dog bound m2
    by (simp add: n2)
  moreover have "format (js ''{n} cani'') (count_arg 2) = js ''2 cani''"
    by (simp add: match_placeholder_def lookup_string_def js_def lbrace_def rbrace_def
          count_arg_def number_key_def)
  ultimately have t2: "T_format ?tbl (js ''dog'') (Some (count_arg 2)) = Inr (js ''2 cani'')"
    by simp
  have "T_format ?tbl (js ''dog'') (Some (count_arg 7)) = Inr (format (js ''{n} cani'') (count_arg 7))"
    using T_format_plural_rule [where tbl = ?tbl and msg = "js ''dog''"
        and ?args0.0 = "Some (count_arg 7)"] dog bound m7
    by (simp add: n7)
  moreover have "format (js ''{n} cani'') (count_arg 7) = js ''7 cani''"
    by (simp add: match_placeholder_def lookup_string_def js_def lbrace_def rbrace_def
          count_arg_def number_key_def decimal.simps [of 7] digit_char_def)
  ultimately have t7: "T_format ?tbl (js ''dog'') (Some (count_arg 7)) = Inr (js ''7 cani'')"
    by simp
  have n3: "(case count_arg (- 3) (js ''n'') of Some v \<Rightarrow> v | None \<Rightarrow> js_one) =
      \<lparr>to_string = number_key (- 3), to_number = Some (- 3)\<rparr>"
    by (simp add: count_arg_def)
  have m3: "map_of ?ks (plural_key ?ks (Some (- 3))) = Some (js ''no cane'')"
    by (simp add: plural_key_def)
  have "T_format ?tbl (js ''dog'') (Some (count_arg (- 3))) =
      Inr (format (js ''no cane'') (count_arg (- 3)))"
    using T_format_plural_rule [where tbl = ?tbl and msg = "js ''dog''"
        and ?args0.0 = "Some (count_arg (- 3))"] dog bound m3
    by (simp add: n3)
  moreover have "format (js ''no cane'') (count_arg (- 3)) = js ''no cane''"
    by (simp add: match_placeholder_def js_def lbrace_def)
  ultimately have t3: "T_format ?tbl (js ''dog'') (Some (count_arg (- 3))) = Inr (js ''no cane'')"
    by simp
  let ?tbl0 = "Some (object_table [(js ''dog'', numbered [(0, js ''no cane'')])])"
  have own: "map_of [(js ''dog'', numbered [(0, js ''no cane'')])] (js ''cat'') = None"
    by (simp add: js_def)
  have inh: "empty_object (js ''cat'') = None"
    by (simp add: empty_object_def prototype_methods_def js_def)
  have "T_format ?tbl0 (js ''cat'') None = Inr (format (js ''cat'') empty_object)"
    using T_format_plural_rule [where tbl = ?tbl0 and msg = "js ''cat''" and ?args0.0 = None]
      own inh
    by simp
  moreover have "format (js ''cat'') empty_object = js ''cat''"
    by (simp add: match_placeholder_def js_def lbrace_def)
  ultimately have t0: "T_format ?tbl0 (js ''cat'') None = Inr (js ''cat'')"
    by simp
  show ?thesis using m2 t2 t7 t3 own inh t0 by simp
qed

text \<open>
  Claim C10, as stated, is about every text and every entry. On the table as loaded
  the text \<open>constructor\<close> has no entry, but the lookup finds the function inherited from
  \<open>Object.prototype\<close> and the call throws. With the entry \<open>{2: '{n} cani'}\<close> and \<open>n = 1\<close> no
  key is at most \<open>n\<close>, the key \<open>0\<close> is used, and the call throws for want of a translation
  under it. With the entry \<open>{'-1': 'sotto', 0: 'zero', 5: 'cinque'}\<close> and \<open>n = -1\<close> the
  largest key at most \<open>n\<close> is \<open>-1\<close>, but the loop visits \<open>0\<close> first and stops there: the
  call returns \<open>zero\<close>.
\<close>

theorem T_format_rule_counterexample:
  "T_format (T_translations fresh_page) (js ''constructor'') None = Inl TypeError \<and>
   T_format (Some (object_table [(js ''dog'', numbered [(2, js ''{n} cani'')])])) (js ''dog'') None =
     Inl TypeError \<and>
   T_format
     (Some (object_table
        [(js ''dog'', [(js ''-1'', js ''sotto''), (js ''0'', js ''zero''), (js ''5'', js ''cinque'')])]))
     (js ''dog'') (Some (count_arg (- 1))) = Inr (js ''zero'')"
proof (intro conjI)
  show "T_format (T_translations fresh_page) (js ''constructor'') None = Inl TypeError"
    by (simp add: T_format_def fresh_page_def object_table_def empty_object_def for_in_keys_def
          own_keys_def number_key_def decimal.simps [of 0] digit_char_def js_def)
  show "T_format (Some (object_table [(js ''dog'', numbered [(2, js ''{n} cani'')])])) (js ''dog'')
      None = Inl TypeError"
    by (simp add: T_format_def object_table_def empty_object_def prototype_methods_def
          for_in_keys_def own_keys_def number_key_def decimal.simps [of 0] decimal.simps [of 2]
          digit_char_def js_def numbered_def array_index_def radix_digit_def digit_of_def
          digits_value_def index_value_def js_le_def parse_int_def js_one_def is_space_def)
  show "T_format
     (Some (object_table
        [(js ''dog'', [(js ''-1'', js ''sotto''), (js ''0'', js ''zero''), (js ''5'', js ''cinque'')])]))
     (js ''dog'') (Some (count_arg (- 1))) = Inr (js ''zero'')"
    by (simp add: T_format_def object_table_def empty_object_def prototype_methods_def
          for_in_keys_def own_keys_def number_key_def decimal.simps [of 0] decimal.simps [of 5]
          decimal.simps [of 1] digit_char_def js_def array_index_def radix_digit_def digit_of_def
          digits_value_def index_value_def js_le_def parse_int_def is_space_def count_arg_def
          match_placeholder_def lbrace_def)
qed

section \<open>Properties of Q.score_password\<close>

lemma count_char_fold:
  "\<forall>c. cnt c = (if c \<in> set pre then Some (count_list pre c) else None) \<Longrightarrow>
   fst (foldl count_char (sc, cnt) suf) =
   foldl fadd sc
     (map (\<lambda>i. fdiv 5 (of_nat (occurrences (pre @ suf) (length pre + i)))) [0..<length suf])"
proof (induction suf arbitrary: pre sc cnt)
  case Nil
  then show ?case by simp
next
  case (Cons c cs)
  let ?n = "Suc (count_list pre c)"
  have n: "(case cnt c of None \<Rightarrow> 0 | Some m \<Rightarrow> m) + 1 = ?n"
    using Cons.prems by (simp add: count_list_0_iff)
  have step: "count_char (sc, cnt) c = (fadd sc (fdiv 5 (of_nat ?n)), cnt(c \<mapsto> ?n))"
    unfolding count_char_def Let_def fst_conv snd_conv n ..
  have inv: "\<forall>d. (cnt(c \<mapsto> ?n)) d =
      (if d \<in> set (pre @ [c]) then Some (count_list (pre @ [c]) d) else None)"
    using Cons.prems by simp
  have occ: "occurrences (pre @ c # cs) (length pre) = ?n"
    by (simp add: occurrences_def)
  have idx: "[0..<length (c # cs)] = 0 # map Suc [0..<length cs]"
    by (simp add: upt_conv_Cons map_Suc_upt del: upt_Suc)
  have "fst (foldl count_char (sc, cnt) (c # cs)) =
        fst (foldl count_char (fadd sc (fdiv 5 (of_nat ?n)), cnt(c \<mapsto> ?n)) cs)"
    by (simp add: step)
  also have "\<dots> = foldl fadd (fadd sc (fdiv 5 (of_nat ?n)))
      (map (\<lambda>i. fdiv 5 (of_nat (occurrences ((pre @ [c]) @ cs) (length (pre @ [c]) + i))))
         [0..<length cs])"
    using inv by (rule Cons.IH)
  also have "\<dots> = foldl fadd sc
      (map (\<lambda>i. fdiv 5 (of_nat (occurrences (pre @ c # cs) (length pre + i))))
         [0..<length (c # cs)])"
    unfolding idx by (simp add: occ o_def)
  finally show ?case .
qed

lemma add_class_fold:
  "foldl (add_class text) sc res = foldl fadd sc (map (class_bonus text) res)"
  by (induction res arbitrary: sc) (simp_all add: add_class_def class_bonus_def)

lemma js_round_nonneg: "0 \<le> js_round (max 0 x)"
  by (simp add: js_round_def)

text \<open>
  Claim C1, as amended. \<open>Q.score_password(text)\<close> is \<open>round(max(0, S))\<close>, where \<open>S\<close> is the sum
  of \<open>-10\<close>, of \<open>5 / k\<close> for every position (\<open>k\<close> the number of occurrences of the code
  unit at the position among the code units up to it), and of \<open>10\<close> for each of the four
  classes that occurs in \<open>text\<close>, the terms added from left to right in binary64
  arithmetic. The result is a non-negative integer, and \<open>0\<close> for the empty string.
\<close>

theorem score_password_rounded:
  "score_password text = rounded_score text \<and> 0 \<le> score_password text \<and> score_password [] = 0"
proof (intro conjI)
  have "fst (foldl count_char (- 10, Map.empty) text) =
        foldl fadd (- 10)
          (map (\<lambda>i. fdiv 5 (of_nat (occurrences ([] @ text) (length ([] :: jsstring) + i))))
             [0..<length text])"
    by (rule count_char_fold) simp
  then show "score_password text = rounded_score text"
    by (simp add: score_password_def rounded_score_def add_class_fold)
  show "0 \<le> score_password text"
    by (simp add: score_password_def js_round_nonneg)
  show "score_password [] = 0"
    by code_simp
qed

theorem score_password_rounded_witness:
  "score_password (js ''Passw0rd!'') = 73 \<and> rounded_score (js ''Passw0rd!'') = 73"
proof -
  have "score_password (js ''Passw0rd!'') = 73"
    by code_simp
  with score_password_rounded [of "js ''Passw0rd!''"] show ?thesis
    by simp
qed

text \<open>
  Claim C1, as stated, reads the sum in exact arithmetic. For the thirteen code units
  \<open>cbaabbabaaabb\<close> the exact sum is \<open>29.5\<close>, which rounds to \<open>30\<close>; the binary64 sum is
  just below \<open>29.5\<close>, and the function returns \<open>29\<close>.
\<close>

theorem score_password_exact_counterexample:
  "score_password (js ''cbaabbabaaabb'') = 29 \<and> exact_score (js ''cbaabbabaaabb'') = 30"
  by code_simp

section \<open>Properties of Q._maybeSetupGlobalDelegate\<close>

lemma setup_sets_flag: "globalDelegateActive (maybeSetupGlobalDelegate pg)"
  by (simp add: maybeSetupGlobalDelegate_def)

lemma setup_idle: "globalDelegateActive pg \<Longrightarrow> maybeSetupGlobalDelegate pg = pg"
  by (simp add: maybeSetupGlobalDelegate_def)

lemma setup_calls_idle: "globalDelegateActive pg \<Longrightarrow> setup_calls n pg = pg"
  by (induction n) (simp_all add: setup_idle)

text \<open>
  Claim C5. Any number of calls of \<open>Q._maybeSetupGlobalDelegate\<close>, at least one, leaves
  the page as one call does. A call with the flag unset sets the flag and registers one
  click listener on the body; a call with the flag set changes nothing; and the flag is
  set after every call, so every call after the first is of the second kind.
\<close>

theorem maybeSetupGlobalDelegate_once:
  "setup_calls (Suc n) pg = maybeSetupGlobalDelegate pg \<and>
   (\<not> globalDelegateActive pg \<longrightarrow>
      maybeSetupGlobalDelegate pg =
        pg\<lparr>globalDelegateActive := True, body_click := body_click pg @ [GlobalSubmit]\<rparr>) \<and>
   (globalDelegateActive pg \<longrightarrow> maybeSetupGlobalDelegate pg = pg) \<and>
   globalDelegateActive (maybeSetupGlobalDelegate pg)"
  by (simp add: setup_calls_idle setup_sets_flag setup_idle) (simp add: maybeSetupGlobalDelegate_def)

theorem maybeSetupGlobalDelegate_once_witness:
  "\<not> globalDelegateActive fresh_page \<and>
   setup_calls 3 fresh_page =
     fresh_page\<lparr>globalDelegateActive := True, body_click := [GlobalSubmit]\<rparr> \<and>
   globalDelegateActive (setup_calls 1 fresh_page) \<and>
   maybeSetupGlobalDelegate (setup_calls 1 fresh_page) = setup_calls 1 fresh_page"
proof -
  have pre: "\<not> globalDelegateActive fresh_page"
    by (simp add: fresh_page_def)
  have first: "maybeSetupGlobalDelegate fresh_page =
      fresh_page\<lparr>globalDelegateActive := True, body_click := [GlobalSubmit]\<rparr>"
    using maybeSetupGlobalDelegate_once [of 0 fresh_page] pre by (simp add: fresh_page_def)
  have three: "setup_calls 3 fresh_page = maybeSetupGlobalDelegate fresh_page"
    using maybeSetupGlobalDelegate_once [of 2 fresh_page] by (simp add: numeral_3_eq_3)
  have one: "setup_calls 1 fresh_page = maybeSetupGlobalDelegate fresh_page"
    by simp
  have act: "globalDelegateActive (setup_calls 1 fresh_page)"
    unfolding one using maybeSetupGlobalDelegate_once [of 0 fresh_page] by blast
  have again: "maybeSetupGlobalDelegate (setup_calls 1 fresh_page) = setup_calls 1 fresh_page"
    using maybeSetupGlobalDelegate_once [of 0 "setup_calls 1 fresh_page"] act by blast
  show ?thesis using pre first three act again by simp
qed

section \<open>Properties of Q._ajaxSubmitForm on an unchanged form\<close>

lemma fields_unchanged_not_changed: "fields_unchanged f \<Longrightarrow> \<not> is_form_changed f"
  by (auto simp: fields_unchanged_def is_form_changed_def list_ex_iff control_changed_def)

text \<open>
  Claim C9. On a form for which \<open>Q.is_form_changed\<close> returns false,
  \<open>Q._ajaxSubmitForm\<close> returns a promise rejected with the error \<open>Form was not changed\<close>,
  and leaves the form with its buttons and the page as they are: no request is
  made. A form whose controls that are not disabled have their default values, and
  whose checkboxes and radios have \<open>checked\<close> equal to \<open>defaultChecked\<close>, is such a form.
\<close>

theorem ajaxSubmitForm_unchanged_form:
  "(\<not> is_form_changed f \<longrightarrow>
      ajaxSubmitForm br encode f pg = (Inr (Rejected (Error (js ''Form was not changed''))), f, pg)) \<and>
   (fields_unchanged f \<longrightarrow> \<not> is_form_changed f)"
  by (simp add: ajaxSubmitForm_def fields_unchanged_not_changed)

theorem ajaxSubmitForm_unchanged_form_witness:
  "\<forall>br encode pg.
     fields_unchanged pristine_form \<and> \<not> is_form_changed pristine_form \<and>
     ajaxSubmitForm br encode pristine_form pg =
       (Inr (Rejected (Error (js ''Form was not changed''))), pristine_form, pg)"
proof (intro allI)
  fix br encode pg
  have u: "fields_unchanged pristine_form"
    by (simp add: fields_unchanged_def pristine_form_def)
  with ajaxSubmitForm_unchanged_form [of pristine_form br encode pg]
  show "fields_unchanged pristine_form \<and> \<not> is_form_changed pristine_form \<and>
     ajaxSubmitForm br encode pristine_form pg =
       (Inr (Rejected (Error (js ''Form was not changed''))), pristine_form, pg)"
    by blast
qed

section \<open>The string helpers and the shared state\<close>

text \<open>
  Claim C6. A call of \<open>Q.parse_list\<close>, \<open>Q.score_password\<close>, \<open>String.prototype.format\<close> or
  \<open>T.format\<close> leaves the page as it is, the flag \<open>Q._globalDelegateActive\<close> and the table
  \<open>T.translations\<close> included. Two calls with equal arguments on pages with equal tables
  have equal results, and for the three helpers other than \<open>T.format\<close> whatever the pages
  are.
\<close>

theorem string_helpers_stateless:
  "snd (call_helper c pg) = pg \<and>
   (T_translations pg = T_translations pg' \<longrightarrow> fst (call_helper c pg) = fst (call_helper c pg')) \<and>
   ((\<nexists>msg args. c = T_format_call msg args) \<longrightarrow> fst (call_helper c pg) = fst (call_helper c pg'))"
  by (cases c) simp_all

theorem string_helpers_stateless_witness:
  "T_translations fresh_page = T_translations (maybeSetupGlobalDelegate fresh_page) \<and>
   fresh_page \<noteq> maybeSetupGlobalDelegate fresh_page \<and>
   snd (call_helper (T_format_call (js ''dog'') None) fresh_page) = fresh_page \<and>
   fst (call_helper (T_format_call (js ''dog'') None) fresh_page) =
     fst (call_helper (T_format_call (js ''dog'') None) (maybeSetupGlobalDelegate fresh_page)) \<and>
   (\<nexists>msg args. Parse_list (js ''a, b'') = T_format_call msg args) \<and>
   fst (call_helper (Parse_list (js ''a, b'')) fresh_page) =
     fst (call_helper (Parse_list (js ''a, b'')) (log_event (Navigate (js ''/'')) fresh_page))"
proof -
  have tr: "T_translations fresh_page = T_translations (maybeSetupGlobalDelegate fresh_page)"
    by (simp add: maybeSetupGlobalDelegate_def fresh_page_def)
  have ne: "fresh_page \<noteq> maybeSetupGlobalDelegate fresh_page"
  proof
    assume "fresh_page = maybeSetupGlobalDelegate fresh_page"
    then have "globalDelegateActive fresh_page = globalDelegateActive (maybeSetupGlobalDelegate fresh_page)"
      by simp
    then show False by (simp add: maybeSetupGlobalDelegate_def fresh_page_def)
  qed
  have pl: "\<nexists>msg args. Parse_list (js ''a, b'') = T_format_call msg args"
    by simp
  show ?thesis
    using tr ne pl
      string_helpers_stateless [of "T_format_call (js ''dog'') None" fresh_page
        "maybeSetupGlobalDelegate fresh_page"]
      string_helpers_stateless [of "Parse_list (js ''a, b'')" fresh_page
        "log_event (Navigate (js ''/'')) fresh_page"]
    by blast
qed

section \<open>Failures of Q.load_and_trap\<close>

lemma extends_iff:
  "extends pg pg' \<and> new_events pg pg' = evs \<longleftrightarrow> events pg' = events pg @ evs"
proof
  assume "extends pg pg' \<and> new_events pg pg' = evs"
  then show "events pg' = events pg @ evs"
    using append_take_drop_id [of "length (events pg)" "events pg'"]
    by (simp add: extends_def new_events_def)
next
  assume "events pg' = events pg @ evs"
  then show "extends pg pg' \<and> new_events pg pg' = evs"
    by (simp add: extends_def new_events_def)
qed

lemma silent_iff:
  "silent pg pg' \<longleftrightarrow>
     T_translations pg' = T_translations pg \<and> flash_alerts pg' = flash_alerts pg \<and>
     (\<exists>evs. events pg' = events pg @ evs \<and> filter is_fetch evs = [] \<and>
        filter is_timer_call evs = [])"
  unfolding silent_def using extends_iff [of pg pg'] by metis

lemma one_request_iff:
  "one_request_no_timer pg pg' \<longleftrightarrow>
     (\<exists>evs. events pg' = events pg @ evs \<and> length (filter is_fetch evs) \<le> 1 \<and>
        filter is_timer_call evs = [])"
  unfolding one_request_no_timer_def using extends_iff [of pg pg'] by metis

lemma silent_refl [simp]: "silent pg pg"
  by (simp add: silent_iff)

lemma silent_trans: "silent pg pg1 \<Longrightarrow> silent pg1 pg2 \<Longrightarrow> silent pg pg2"
  by (auto simp: silent_iff)

lemma silent_log_event:
  "\<not> is_fetch e \<Longrightarrow> \<not> is_timer_call e \<Longrightarrow> silent pg (log_event e pg)"
  by (simp add: silent_iff log_event_def)

lemma silent_flash: "silent pg (flash d pg)"
  by (cases "flash_alerts pg") (simp_all add: flash_def Let_def silent_log_event)

lemma silent_setup: "silent pg (maybeSetupGlobalDelegate pg)"
  by (simp add: maybeSetupGlobalDelegate_def silent_iff)

lemma silent_trap_form: "silent pg (snd (trap_form br action elem_id gs pg))"
proof (cases "find_forms br elem_id")
  case (Inl e)
  then show ?thesis by (simp add: trap_form_def)
next
  case (Inr u)
  have "silent pg (log_event (TrapForms elem_id gs) pg)"
    by (simp add: silent_log_event)
  moreover have "silent (log_event (TrapForms elem_id gs) pg)
      (maybeSetupGlobalDelegate (log_event (TrapForms elem_id gs) pg))"
    by (rule silent_setup)
  ultimately show ?thesis
    using Inr by (auto simp: trap_form_def Let_def intro: silent_trans)
qed

lemma silent_on_response: "silent pg (snd (on_response br url target res pg))"
proof (cases "redirected res")
  case True
  then show ?thesis by (simp add: on_response_def silent_log_event)
next
  case False
  show ?thesis
  proof (cases "find_target br target")
    case (Inl e)
    with False show ?thesis by (simp add: on_response_def)
  next
    case (Inr found)
    show ?thesis
    proof (cases found)
      case False
      with Inr \<open>\<not> redirected res\<close> show ?thesis
        by (simp add: on_response_def silent_flash split: sum.splits)
    next
      case True
      show ?thesis
      proof (cases "reinsert_scripts br target (res_data res)")
        case (Inl e)
        with True Inr \<open>\<not> redirected res\<close> show ?thesis
          by (simp add: on_response_def silent_log_event)
      next
        case (Inr u)
        let ?pg0 = "log_event (SetInnerHTML target (res_data res)) pg"
        let ?tf = "trap_form br url target (global_submit br target) ?pg0"
        have a: "silent pg ?pg0" by (simp add: silent_log_event)
        have b: "silent ?pg0 (snd ?tf)" by (rule silent_trap_form)
        have ab: "silent pg (snd ?tf)" using a b by (rule silent_trans)
        have c: "silent pg (flash d (snd ?tf))" for d
          using ab silent_flash by (rule silent_trans)
        obtain r pg1 where tf: "?tf = (r, pg1)" by (cases ?tf)
        with ab c have ab': "silent pg pg1" and c': "\<And>d. silent pg (flash d pg1)" by simp_all
        show ?thesis
          using True \<open>find_target br target = Inr found\<close> \<open>\<not> redirected res\<close> Inr tf ab' c'
          by (simp add: on_response_def split: sum.splits option.splits)
      qed
    qed
  qed
qed

lemma silent_check_target: "check_target url target pg = Inr pg1 \<Longrightarrow> silent pg pg1"
  by (auto simp: check_target_def silent_flash split: if_splits sum.splits)

lemma class_token_danger [simp]: "class_token danger" "danger \<noteq> []"
  by (simp_all add: class_token_def danger_def js_def)

lemma on_error_reported:
  "T_format (T_translations pg) (js ''Ajax component error'') None = Inr m \<Longrightarrow>
   flash_alerts pg \<noteq> NoAlerts \<Longrightarrow>
   on_error err pg = (Fulfilled (), reported m err pg)"
  by (cases "flash_alerts pg")
     (simp_all add: on_error_def reported_def flash_def log_event_def Let_def)

lemma Q_ajax_trap:
  "Q_ajax br (trap_method meth) url (map_option FormData form_data) None pg =
     (Inr (case network br (trap_request meth url form_data) of
             Inl e \<Rightarrow> Rejected e | Inr res \<Rightarrow> Fulfilled res),
      log_event (Fetch (trap_request meth url form_data)) pg)"
  by (cases form_data) (simp_all add: Q_ajax_def make_options_def trap_request_def)

lemma silent_fetches:
  "silent pg pg' \<Longrightarrow> filter is_fetch (events pg') = filter is_fetch (events pg)"
  by (auto simp: silent_iff)

lemma ajaxSubmitForm_fulfilled:
  "is_form_changed f \<Longrightarrow>
   load_and_trap br (js ''POST'') (form_action f)
     (Some (encode (f\<lparr>buttons_disabled := map (\<lambda>b. True) (buttons_disabled f)\<rparr>)))
     (case component_target f of None \<Rightarrow> [] | Some tg \<Rightarrow> tg) pg = (Inr (Fulfilled ()), pg') \<Longrightarrow>
   ajaxSubmitForm br encode f pg =
     (Inr (Fulfilled ()), f\<lparr>buttons_disabled := map (\<lambda>b. False) (buttons_disabled f)\<rparr>, pg')"
  by (simp add: ajaxSubmitForm_def Let_def)

text \<open>
  Claim C4, as amended. On a page that has its \<open>flash-alerts\<close> element, so that
  \<open>Q.handle_flash\<close> has installed the \<open>Q.flash\<close> that shows banners, when the request of
  \<open>Q.load_and_trap\<close> fails, or the callback that processes the response throws, and the
  lookup of the message \<open>Ajax component error\<close> in the callback of \<open>catch\<close> returns (it
  does with the table as loaded), then a banner with the class \<open>danger\<close> is shown, the
  error is logged with \<open>console.error\<close>, nothing else happens after the failure, the
  trace has the one request, and the promise is fulfilled. \<open>Q._ajaxSubmitForm\<close> on a
  changed form then returns a fulfilled promise too, with the buttons enabled again and
  the same page.
\<close>

theorem load_and_trap_failure_reported:
  assumes msg: "T_format (T_translations pg) (js ''Ajax component error'') None = Inr m"
    and alerts: "flash_alerts pg \<noteq> NoAlerts"
    and pre: "check_target url target pg = Inr pg1"
  shows
    "(network br (trap_request meth url form_data) = Inl err \<longrightarrow>
        load_and_trap br meth url form_data target pg =
          (Inr (Fulfilled ()),
           reported m err (log_event (Fetch (trap_request meth url form_data)) pg1))) \<and>
     (network br (trap_request meth url form_data) = Inr res \<and>
      on_response br url target res (log_event (Fetch (trap_request meth url form_data)) pg1) =
        (Rejected err, pg2) \<longrightarrow>
        load_and_trap br meth url form_data target pg = (Inr (Fulfilled ()), reported m err pg2) \<and>
        filter is_fetch (events pg2) =
          filter is_fetch (events pg1) @ [Fetch (trap_request meth url form_data)]) \<and>
     (is_form_changed f \<and>
      load_and_trap br (js ''POST'') (form_action f)
        (Some (encode (f\<lparr>buttons_disabled := map (\<lambda>b. True) (buttons_disabled f)\<rparr>)))
        (case component_target f of None \<Rightarrow> [] | Some tg \<Rightarrow> tg) pg = (Inr (Fulfilled ()), pg') \<longrightarrow>
        ajaxSubmitForm br encode f pg =
          (Inr (Fulfilled ()), f\<lparr>buttons_disabled := map (\<lambda>b. False) (buttons_disabled f)\<rparr>, pg'))"
proof (intro conjI impI)
  let ?req = "trap_request meth url form_data"
  let ?pgf = "log_event (Fetch ?req) pg1"
  have tr1: "T_translations pg1 = T_translations pg \<and> flash_alerts pg1 = flash_alerts pg"
    using silent_check_target [OF pre] by (simp add: silent_iff)
  then have trf: "T_translations ?pgf = T_translations pg \<and> flash_alerts ?pgf = flash_alerts pg"
    by (simp add: log_event_def)
  show "load_and_trap br meth url form_data target pg = (Inr (Fulfilled ()), reported m err ?pgf)"
    if "network br ?req = Inl err"
    using that pre msg alerts trf
    by (simp add: load_and_trap_def Q_ajax_trap on_error_reported)
  assume proc: "network br ?req = Inr res \<and> on_response br url target res ?pgf = (Rejected err, pg2)"
  have sil: "silent ?pgf pg2"
    using silent_on_response [of ?pgf br url target res] proc by simp
  then have "T_translations pg2 = T_translations pg \<and> flash_alerts pg2 = flash_alerts pg"
    using trf by (simp add: silent_iff)
  then have "on_error err pg2 = (Fulfilled (), reported m err pg2)"
    using msg alerts by (simp add: on_error_reported)
  then show "load_and_trap br meth url form_data target pg = (Inr (Fulfilled ()), reported m err pg2)"
    using proc pre by (simp add: load_and_trap_def Q_ajax_trap)
  show "filter is_fetch (events pg2) = filter is_fetch (events pg1) @ [Fetch ?req]"
    using silent_fetches [OF sil] by (simp add: log_event_def)
next
  assume "is_form_changed f \<and>
      load_and_trap br (js ''POST'') (form_action f)
        (Some (encode (f\<lparr>buttons_disabled := map (\<lambda>b. True) (buttons_disabled f)\<rparr>)))
        (case component_target f of None \<Rightarrow> [] | Some tg \<Rightarrow> tg) pg = (Inr (Fulfilled ()), pg')"
  then show "ajaxSubmitForm br encode f pg =
      (Inr (Fulfilled ()), f\<lparr>buttons_disabled := map (\<lambda>b. False) (buttons_disabled f)\<rparr>, pg')"
    by (simp add: ajaxSubmitForm_fulfilled)
qed

lemma format_plain_message:
  "format (js ''Ajax component error'') empty_object = js ''Ajax component error''"
  by (simp add: js_def match_placeholder_def lbrace_def)

lemma ajax_message_default:
  "T_format (Some (object_table [])) (js ''Ajax component error'') None =
     Inr (js ''Ajax component error'')"
proof -
  have "object_table [] (js ''Ajax component error'') = None"
    by (simp add: object_table_def empty_object_def prototype_methods_def js_def)
  then show ?thesis
    by (simp add: T_format_def format_plain_message)
qed

theorem load_and_trap_failure_reported_witness:
  "flash_alerts alerts_page = PlainAlerts \<and>
   T_format (T_translations alerts_page) (js ''Ajax component error'') None =
     Inr (js ''Ajax component error'') \<and>
   check_target (js ''/c'') (js ''box'') alerts_page = Inr alerts_page \<and>
   network offline (trap_request (js ''GET'') (js ''/c'') None) =
     Inl (Failure (js ''Failed to fetch'')) \<and>
   load_and_trap offline (js ''GET'') (js ''/c'') None (js ''box'') alerts_page =
     (Inr (Fulfilled ()),
      alerts_page\<lparr>events :=
        [Fetch (trap_request (js ''GET'') (js ''/c'') None),
         Banner \<lparr>message = js ''Ajax component error'', flash_class = danger\<rparr>,
         ConsoleError (js ''Ajax component error:'') (Failure (js ''Failed to fetch''))]\<rparr>) \<and>
   load_and_trap bad_selector (js ''GET'') (js ''/c'') None (js ''box'') alerts_page =
     (Inr (Fulfilled ()),
      alerts_page\<lparr>events :=
        [Fetch (trap_request (js ''GET'') (js ''/c'') None),
         Banner \<lparr>message = js ''Ajax component error'', flash_class = danger\<rparr>,
         ConsoleError (js ''Ajax component error:'') (Failure (js ''SyntaxError''))]\<rparr>) \<and>
   is_form_changed edited_form \<and>
   ajaxSubmitForm offline (\<lambda>f. js ''name=Bob'') edited_form alerts_page =
     (Inr (Fulfilled ()), edited_form,
      alerts_page\<lparr>events :=
        [Fetch \<lparr>req_method = js ''post'', req_url = js ''/save'', req_headers = None,
                req_body = Some (FormBody (js ''name=Bob''))\<rparr>,
         Banner \<lparr>message = js ''Ajax component error'', flash_class = danger\<rparr>,
         ConsoleError (js ''Ajax component error:'') (Failure (js ''Failed to fetch''))]\<rparr>)"
proof -
  let ?req = "trap_request (js ''GET'') (js ''/c'') None"
  let ?m = "js ''Ajax component error''"
  have al: "flash_alerts alerts_page = PlainAlerts"
    by (simp add: alerts_page_def)
  then have al0: "flash_alerts alerts_page \<noteq> NoAlerts"
    by simp
  have msg: "T_format (T_translations alerts_page) ?m None = Inr ?m"
    by (simp add: alerts_page_def fresh_page_def ajax_message_default)
  have pre: "check_target (js ''/c'') (js ''box'') alerts_page = Inr alerts_page"
    by (simp add: check_target_def js_def)
  have net: "network offline ?req = Inl (Failure (js ''Failed to fetch''))"
    by (simp add: offline_def)
  have r1: "load_and_trap offline (js ''GET'') (js ''/c'') None (js ''box'') alerts_page =
      (Inr (Fulfilled ()), reported ?m (Failure (js ''Failed to fetch'')) (log_event (Fetch ?req) alerts_page))"
    using load_and_trap_failure_reported [OF msg al0 pre, where br = offline and meth = "js ''GET''"
        and form_data = None and err = "Failure (js ''Failed to fetch'')"] net
    by blast
  have net2: "network bad_selector ?req =
      Inr \<lparr>redirected = False, res_url = js ''/c'', res_data = js ''<p>ok</p>'', component_flash = None\<rparr>"
    by (simp add: bad_selector_def trap_request_def)
  have proc: "on_response bad_selector (js ''/c'') (js ''box'')
       \<lparr>redirected = False, res_url = js ''/c'', res_data = js ''<p>ok</p>'', component_flash = None\<rparr>
       (log_event (Fetch ?req) alerts_page) =
      (Rejected (Failure (js ''SyntaxError'')), log_event (Fetch ?req) alerts_page)"
    by (simp add: on_response_def bad_selector_def)
  have r2: "load_and_trap bad_selector (js ''GET'') (js ''/c'') None (js ''box'') alerts_page =
      (Inr (Fulfilled ()), reported ?m (Failure (js ''SyntaxError'')) (log_event (Fetch ?req) alerts_page))"
    using load_and_trap_failure_reported [OF msg al0 pre, where br = bad_selector
        and meth = "js ''GET''" and form_data = None
        and res = "\<lparr>redirected = False, res_url = js ''/c'', res_data = js ''<p>ok</p>'', component_flash = None\<rparr>"
        and err = "Failure (js ''SyntaxError'')" and ?pg2.0 = "log_event (Fetch ?req) alerts_page"]
      net2 proc
    by blast
  have ev: "reported ?m e (log_event (Fetch ?req) alerts_page) =
      alerts_page\<lparr>events := [Fetch ?req, Banner \<lparr>message = ?m, flash_class = danger\<rparr>,
         ConsoleError (js ''Ajax component error:'') e]\<rparr>" for e
    by (simp add: reported_def log_event_def alerts_page_def fresh_page_def)
  let ?post = "trap_request (js ''POST'') (js ''/save'') (Some (js ''name=Bob''))"
  have post: "?post = \<lparr>req_method = js ''post'', req_url = js ''/save'', req_headers = None,
      req_body = Some (FormBody (js ''name=Bob''))\<rparr>"
    by (simp add: trap_request_def trap_method_def toLowerCase_def is_upper_def js_def)
  have pre3: "check_target (js ''/save'') (js ''box'') alerts_page = Inr alerts_page"
    by (simp add: check_target_def js_def)
  have net3: "network offline ?post = Inl (Failure (js ''Failed to fetch''))"
    by (simp add: offline_def)
  have r3: "load_and_trap offline (js ''POST'') (js ''/save'') (Some (js ''name=Bob'')) (js ''box'')
       alerts_page =
      (Inr (Fulfilled ()), reported ?m (Failure (js ''Failed to fetch'')) (log_event (Fetch ?post) alerts_page))"
    using load_and_trap_failure_reported [OF msg al0 pre3, where br = offline and meth = "js ''POST''"
        and form_data = "Some (js ''name=Bob'')" and err = "Failure (js ''Failed to fetch'')"] net3
    by blast
  have ch: "is_form_changed edited_form"
    by (simp add: is_form_changed_def edited_form_def pristine_form_def control_changed_def js_def)
  have fm: "form_action edited_form = js ''/save''"
      "(case component_target edited_form of None \<Rightarrow> [] | Some tg \<Rightarrow> tg) = js ''box''"
      "edited_form\<lparr>buttons_disabled := map (\<lambda>b. False) (buttons_disabled edited_form)\<rparr> = edited_form"
    by (simp_all add: edited_form_def pristine_form_def)
  have r4: "ajaxSubmitForm offline (\<lambda>f. js ''name=Bob'') edited_form alerts_page =
      (Inr (Fulfilled ()), edited_form,
       reported ?m (Failure (js ''Failed to fetch'')) (log_event (Fetch ?post) alerts_page))"
    using load_and_trap_failure_reported [OF msg al0 pre, where f = edited_form and br = offline
        and encode = "\<lambda>f. js ''name=Bob''"
        and pg' = "reported ?m (Failure (js ''Failed to fetch'')) (log_event (Fetch ?post) alerts_page)"]
      ch r3
    by (simp add: fm)
  have ev3: "reported ?m e (log_event (Fetch ?post) alerts_page) =
      alerts_page\<lparr>events := [Fetch ?post, Banner \<lparr>message = ?m, flash_class = danger\<rparr>,
         ConsoleError (js ''Ajax component error:'') e]\<rparr>" for e
    by (simp add: reported_def log_event_def alerts_page_def fresh_page_def)
  show ?thesis
    using al msg pre net r1 r2 ch r4 by (simp add: ev ev3 [unfolded post] post)
qed

text \<open>
  Claim C4, as stated, is about every page and every table of translations. On a page
  with the \<open>flash-alerts\<close> element whose table has an entry for \<open>Ajax component error\<close>
  with the key \<open>2\<close> only, the lookup in the callback of \<open>catch\<close> finds no key at most \<open>1\<close>,
  takes the key \<open>0\<close>, and throws; the request has failed, the promise is rejected, and the
  trace has the request and nothing else: no banner and no line of \<open>console.error\<close>. On
  the page without \<open>flash-alerts\<close> element, with the table as loaded, the promise is
  fulfilled and the error is logged, but \<open>Q.flash\<close> is the default one, which writes a
  line with \<open>console.log\<close>: no banner is shown.
\<close>

theorem load_and_trap_handler_throws_counterexample:
  "network offline (trap_request (js ''GET'') (js ''/c'') None) =
     Inl (Failure (js ''Failed to fetch'')) \<and>
   flash_alerts plural_only_page = PlainAlerts \<and>
   load_and_trap offline (js ''GET'') (js ''/c'') None (js ''box'') plural_only_page =
     (Inr (Rejected TypeError),
      plural_only_page\<lparr>events := [Fetch (trap_request (js ''GET'') (js ''/c'') None)]\<rparr>) \<and>
   flash_alerts fresh_page = NoAlerts \<and>
   load_and_trap offline (js ''GET'') (js ''/c'') None (js ''box'') fresh_page =
     (Inr (Fulfilled ()),
      fresh_page\<lparr>events :=
        [Fetch (trap_request (js ''GET'') (js ''/c'') None),
         ConsoleLog \<lparr>message = js ''Ajax component error'', flash_class = danger\<rparr>,
         ConsoleError (js ''Ajax component error:'') (Failure (js ''Failed to fetch''))]\<rparr>)"
proof -
  let ?req = "trap_request (js ''GET'') (js ''/c'') None"
  have "T_format (T_translations plural_only_page) (js ''Ajax component error'') None = Inl TypeError"
    by (simp add: T_format_def plural_only_page_def alerts_page_def fresh_page_def object_table_def
          for_in_keys_def own_keys_def array_index_def radix_digit_def digit_of_def
          digits_value_def index_value_def decimal.simps [of 2] decimal.simps [of 0] digit_char_def
          parse_int_def is_space_def number_key_def js_le_def js_one_def empty_object_def
          prototype_methods_def js_def)
  moreover have "check_target (js ''/c'') (js ''box'') plural_only_page = Inr plural_only_page"
    by (simp add: check_target_def js_def)
  moreover have "log_event (Fetch ?req) plural_only_page = plural_only_page\<lparr>events := [Fetch ?req]\<rparr>"
    by (simp add: log_event_def plural_only_page_def alerts_page_def fresh_page_def)
  ultimately have bad: "load_and_trap offline (js ''GET'') (js ''/c'') None (js ''box'')
      plural_only_page = (Inr (Rejected TypeError), plural_only_page\<lparr>events := [Fetch ?req]\<rparr>)"
    using Q_ajax_trap [of offline "js ''GET''" "js ''/c''" None plural_only_page]
    by (simp add: load_and_trap_def on_error_def offline_def)
  have "T_format (T_translations (log_event (Fetch ?req) fresh_page)) (js ''Ajax component error'')
      None = Inr (js ''Ajax component error'')"
    by (simp add: log_event_def fresh_page_def ajax_message_default)
  moreover have "check_target (js ''/c'') (js ''box'') fresh_page = Inr fresh_page"
    by (simp add: check_target_def js_def)
  moreover have "flash \<lparr>message = js ''Ajax component error'', flash_class = danger\<rparr>
       (log_event (Fetch ?req) fresh_page) =
      fresh_page\<lparr>events := [Fetch ?req,
        ConsoleLog \<lparr>message = js ''Ajax component error'', flash_class = danger\<rparr>]\<rparr>"
    by (simp add: flash_def log_event_def fresh_page_def)
  ultimately have plain: "load_and_trap offline (js ''GET'') (js ''/c'') None (js ''box'')
      fresh_page =
     (Inr (Fulfilled ()),
      fresh_page\<lparr>events :=
        [Fetch ?req,
         ConsoleLog \<lparr>message = js ''Ajax component error'', flash_class = danger\<rparr>,
         ConsoleError (js ''Ajax component error:'') (Failure (js ''Failed to fetch''))]\<rparr>)"
    using Q_ajax_trap [of offline "js ''GET''" "js ''/c''" None fresh_page]
    by (simp add: load_and_trap_def on_error_def offline_def log_event_def fresh_page_def)
  have "network offline ?req = Inl (Failure (js ''Failed to fetch''))"
    by (simp add: offline_def)
  moreover have "flash_alerts plural_only_page = PlainAlerts"
    by (simp add: plural_only_page_def alerts_page_def)
  moreover have "flash_alerts fresh_page = NoAlerts"
    by (simp add: fresh_page_def)
  ultimately show ?thesis
    using bad plain by simp
qed

section \<open>Requests and timers\<close>

lemma silent_on_error: "silent pg (snd (on_error err pg))"
proof (cases "T_format (T_translations pg) (js ''Ajax component error'') None")
  case (Inl e)
  then show ?thesis by (simp add: on_error_def)
next
  case (Inr m)
  have "silent (flash \<lparr>message = m, flash_class = danger\<rparr> pg)
      (log_event (ConsoleError (js ''Ajax component error:'') err)
        (flash \<lparr>message = m, flash_class = danger\<rparr> pg))"
    by (simp add: silent_log_event)
  then show ?thesis
    using Inr silent_trans [OF silent_flash] by (simp add: on_error_def)
qed

lemma silent_on_submit_error: "silent pg (snd (on_submit_error err pg))"
proof (cases "T_format (T_translations pg) (js ''Submission error'') None")
  case (Inl e)
  then show ?thesis by (simp add: on_submit_error_def)
next
  case (Inr m)
  have "silent (flash \<lparr>message = m, flash_class = danger\<rparr> pg)
      (log_event (ConsoleError (js ''Form submission failed:'') err)
        (flash \<lparr>message = m, flash_class = danger\<rparr> pg))"
    by (simp add: silent_log_event)
  then show ?thesis
    using Inr silent_trans [OF silent_flash] by (simp add: on_submit_error_def)
qed

lemma silent_one_request: "silent pg pg' \<Longrightarrow> one_request_no_timer pg pg'"
  by (auto simp: silent_iff one_request_iff)

lemma fetch_one_request:
  "silent pg pg1 \<Longrightarrow> silent (log_event (Fetch req) pg1) pg2 \<Longrightarrow> one_request_no_timer pg pg2"
  by (auto simp: silent_iff one_request_iff log_event_def)

lemma one_request_silent:
  "one_request_no_timer pg pg1 \<Longrightarrow> silent pg1 pg2 \<Longrightarrow> one_request_no_timer pg pg2"
  by (auto simp: silent_iff one_request_iff)

lemma load_and_trap_one_request:
  "one_request_no_timer pg (snd (load_and_trap br meth url form_data target pg))"
proof (cases "check_target url target pg")
  case (Inl e)
  then show ?thesis by (simp add: load_and_trap_def silent_one_request)
next
  case (Inr pg1)
  let ?req = "trap_request meth url form_data"
  let ?pgf = "log_event (Fetch ?req) pg1"
  have s1: "silent pg pg1" using Inr by (rule silent_check_target)
  show ?thesis
  proof (cases "network br ?req")
    case (Inl err)
    have "one_request_no_timer pg (snd (on_error err ?pgf))"
      using s1 silent_on_error by (rule fetch_one_request)
    then show ?thesis
      using Inl Inr by (auto simp add: load_and_trap_def Q_ajax_trap split: prod.splits)
  next
    case res: (Inr res)
    obtain p pg3 where r: "on_response br url target res ?pgf = (p, pg3)"
      by (cases "on_response br url target res ?pgf")
    then have s3: "silent ?pgf pg3"
      using silent_on_response [of ?pgf br url target res] by simp
    have a: "one_request_no_timer pg pg3"
      using s1 s3 by (rule fetch_one_request)
    have b: "one_request_no_timer pg pg4" if "on_error err pg3 = (p', pg4)" for err p' pg4
      using one_request_silent [OF a silent_on_error [of pg3 err]] that by simp
    show ?thesis
      using res Inr r a b
      by (cases p) (auto simp add: load_and_trap_def Q_ajax_trap split: prod.splits)
  qed
qed

lemma ajaxSubmitForm_one_request:
  "one_request_no_timer pg (snd (snd (ajaxSubmitForm br encode f pg)))"
proof (cases "is_form_changed f")
  case False
  then show ?thesis by (simp add: ajaxSubmitForm_def silent_one_request)
next
  case True
  let ?lt = "load_and_trap br (js ''POST'') (form_action f)
     (Some (encode (f\<lparr>buttons_disabled := map (\<lambda>b. True) (buttons_disabled f)\<rparr>)))
     (case component_target f of None \<Rightarrow> [] | Some tg \<Rightarrow> tg) pg"
  obtain r pg1 where lt: "?lt = (r, pg1)" by (cases ?lt)
  have a: "one_request_no_timer pg pg1"
    using load_and_trap_one_request [of pg br "js ''POST''" "form_action f"
        "Some (encode (f\<lparr>buttons_disabled := map (\<lambda>b. True) (buttons_disabled f)\<rparr>))"
        "case component_target f of None \<Rightarrow> [] | Some tg \<Rightarrow> tg"] lt
    by simp
  have b: "one_request_no_timer pg pg2" if "on_submit_error err pg1 = (p', pg2)" for err p' pg2
    using one_request_silent [OF a silent_on_submit_error [of pg1 err]] that by simp
  show ?thesis
    using True lt a b
    by (auto simp add: ajaxSubmitForm_def Let_def split: sum.splits promise.splits prod.splits)
qed

lemma Q_ajax_once:
  "(\<forall>p. fst (Q_ajax br meth url data headers pg) = Inr p \<longrightarrow>
      (\<exists>req. snd (Q_ajax br meth url data headers pg) = log_event (Fetch req) pg)) \<and>
   (\<forall>e. fst (Q_ajax br meth url data headers pg) = Inl e \<longrightarrow>
      snd (Q_ajax br meth url data headers pg) = pg)"
  by (cases "make_options meth url data headers") (auto simp add: Q_ajax_def)

lemma Q_ajax_returns:
  "headers = None \<or> headers = Some [] \<Longrightarrow>
   data = None \<or> (\<exists>fd. data = Some (FormData fd)) \<or> (\<exists>str. data = Some (Plain (Inr str))) \<Longrightarrow>
   \<exists>p. fst (Q_ajax br meth url data headers pg) = Inr p"
  by (auto simp: Q_ajax_def make_options_def)

lemma executedFunction_effect:
  "executedFunction args d pg =
     (d\<lparr>timeout := Some (Suc (next_timer pg))\<rparr>,
      pg\<lparr>next_timer := Suc (next_timer pg),
         timers := filter (\<lambda>tm. Some (fst tm) \<noteq> timeout d) (timers pg) @
                   [(Suc (next_timer pg), Later args)],
         events := events pg @ [ClearTimeout (timeout d), SetTimeout (Suc (next_timer pg)) (wait d)]\<rparr>)"
  by (simp add: executedFunction_def setTimeout_def clearTimeout_def log_event_def Let_def)

lemma throttled_passes:
  "throttleTimeout th = None \<Longrightarrow>
   events (snd (throttledEventHandler ev th pg)) =
     events pg @ [Callback ev, SetTimeout (Suc (next_timer pg)) (delay th)]"
  by (simp add: throttledEventHandler_def setTimeout_def log_event_def Let_def)

lemma throttled_holds:
  "throttleTimeout th \<noteq> None \<Longrightarrow> snd (throttledEventHandler ev th pg) = pg"
  by (auto simp add: throttledEventHandler_def)

text \<open>
  Claim C7, as amended. The requests are passed to \<open>fetch\<close> with no retry: a call of
  \<open>Q.ajax\<close> that returns its promise has called \<open>fetch\<close> once and done nothing else, a call
  that throws has done nothing, and a call returns its promise when its data are
  absent, a \<open>FormData\<close> or serialisable and it has no headers to copy or a JSON body;
  \<open>Q.load_and_trap\<close> and \<open>Q._ajaxSubmitForm\<close> make at most one request and no timer call.
  Callbacks are deferred by the functions that \<open>Q.debounce\<close> and \<open>Q.throttle\<close> return: a
  call of a debounced function cancels the timer it set before and sets a new one, and a
  throttled function sets a timer when it passes an event on and none when it holds the
  event back.
\<close>

theorem async_pass_through:
  "(\<forall>p. fst (Q_ajax br meth url data headers pg) = Inr p \<longrightarrow>
      (\<exists>req. snd (Q_ajax br meth url data headers pg) = log_event (Fetch req) pg)) \<and>
   (\<forall>e. fst (Q_ajax br meth url data headers pg) = Inl e \<longrightarrow>
      snd (Q_ajax br meth url data headers pg) = pg) \<and>
   ((headers = None \<or> headers = Some [] \<or> (\<exists>str. data = Some (Plain (Inr str)))) \<and>
    (\<nexists>e. data = Some (Plain (Inl e))) \<longrightarrow>
      (\<exists>p. fst (Q_ajax br meth url data headers pg) = Inr p)) \<and>
   one_request_no_timer pg (snd (load_and_trap br meth url form_data target pg)) \<and>
   one_request_no_timer pg (snd (snd (ajaxSubmitForm br encode f pg))) \<and>
   executedFunction args d pg =
     (d\<lparr>timeout := Some (Suc (next_timer pg))\<rparr>,
      pg\<lparr>next_timer := Suc (next_timer pg),
         timers := filter (\<lambda>tm. Some (fst tm) \<noteq> timeout d) (timers pg) @
                   [(Suc (next_timer pg), Later args)],
         events := events pg @ [ClearTimeout (timeout d), SetTimeout (Suc (next_timer pg)) (wait d)]\<rparr>) \<and>
   (throttleTimeout th = None \<longrightarrow>
      events (snd (throttledEventHandler ev th pg)) =
        events pg @ [Callback ev, SetTimeout (Suc (next_timer pg)) (delay th)]) \<and>
   (throttleTimeout th \<noteq> None \<longrightarrow> snd (throttledEventHandler ev th pg) = pg)"
proof (intro conjI)
  show "\<forall>p. fst (Q_ajax br meth url data headers pg) = Inr p \<longrightarrow>
      (\<exists>req. snd (Q_ajax br meth url data headers pg) = log_event (Fetch req) pg)"
    using Q_ajax_once by blast
  show "\<forall>e. fst (Q_ajax br meth url data headers pg) = Inl e \<longrightarrow>
      snd (Q_ajax br meth url data headers pg) = pg"
    using Q_ajax_once by blast
  show "(headers = None \<or> headers = Some [] \<or> (\<exists>str. data = Some (Plain (Inr str)))) \<and>
    (\<nexists>e. data = Some (Plain (Inl e))) \<longrightarrow>
      (\<exists>p. fst (Q_ajax br meth url data headers pg) = Inr p)"
    by (auto simp: Q_ajax_def make_options_def split: option.splits payload.splits sum.splits)
  show "one_request_no_timer pg (snd (load_and_trap br meth url form_data target pg))"
    by (rule load_and_trap_one_request)
  show "one_request_no_timer pg (snd (snd (ajaxSubmitForm br encode f pg)))"
    by (rule ajaxSubmitForm_one_request)
qed (simp_all add: executedFunction_effect throttled_passes throttled_holds)

theorem async_pass_through_witness:
  "Q_ajax offline (js ''GET'') (js ''/api'') None None fresh_page =
     (Inr (Rejected (Failure (js ''Failed to fetch''))),
      fresh_page\<lparr>events :=
        [Fetch \<lparr>req_method = js ''GET'', req_url = js ''/api'', req_headers = None,
                req_body = None\<rparr>]\<rparr>) \<and>
   throttleTimeout \<lparr>delay = 100, throttleTimeout = None, storedEvent = None\<rparr> = None \<and>
   events (snd (throttledEventHandler (js ''scroll'')
       \<lparr>delay = 100, throttleTimeout = None, storedEvent = None\<rparr> fresh_page)) =
     [Callback (js ''scroll''), SetTimeout 1 100] \<and>
   throttleTimeout \<lparr>delay = 100, throttleTimeout = Some 1, storedEvent = None\<rparr> \<noteq> None \<and>
   snd (throttledEventHandler (js ''scroll'')
       \<lparr>delay = 100, throttleTimeout = Some 1, storedEvent = None\<rparr> fresh_page) = fresh_page"
proof -
  let ?q = "Q_ajax offline (js ''GET'') (js ''/api'') None None fresh_page"
  let ?th0 = "\<lparr>delay = 100, throttleTimeout = None, storedEvent = None\<rparr>"
  let ?th1 = "\<lparr>delay = 100, throttleTimeout = Some 1, storedEvent = None\<rparr>"
  note thm0 = async_pass_through [where br = offline and meth = "js ''GET''" and url = "js ''/api''"
      and data = None and headers = None and pg = fresh_page and th = ?th0 and ev = "js ''scroll''"]
  note thm1 = async_pass_through [where pg = fresh_page and th = ?th1 and ev = "js ''scroll''"]
  from thm0 obtain p where p: "fst ?q = Inr p" by blast
  with thm0 obtain req where req: "snd ?q = log_event (Fetch req) fresh_page" by blast
  have fstq: "fst ?q = Inr (Rejected (Failure (js ''Failed to fetch'')))"
    by (simp add: Q_ajax_def make_options_def offline_def)
  have "events (snd ?q) = [Fetch \<lparr>req_method = js ''GET'', req_url = js ''/api'',
      req_headers = None, req_body = None\<rparr>]"
    by (simp add: Q_ajax_def make_options_def log_event_def fresh_page_def)
  with req have "snd ?q = fresh_page\<lparr>events :=
        [Fetch \<lparr>req_method = js ''GET'', req_url = js ''/api'', req_headers = None,
                req_body = None\<rparr>]\<rparr>"
    by (simp add: log_event_def fresh_page_def)
  with fstq have a: "?q = (Inr (Rejected (Failure (js ''Failed to fetch''))),
      fresh_page\<lparr>events :=
        [Fetch \<lparr>req_method = js ''GET'', req_url = js ''/api'', req_headers = None,
                req_body = None\<rparr>]\<rparr>)"
    by (simp add: prod_eq_iff)
  have b: "events (snd (throttledEventHandler (js ''scroll'') ?th0 fresh_page)) =
      [Callback (js ''scroll''), SetTimeout 1 100]"
    using thm0 by (simp add: fresh_page_def)
  have c: "snd (throttledEventHandler (js ''scroll'') ?th1 fresh_page) = fresh_page"
    using thm1 by simp
  show ?thesis using a b c by simp
qed

text \<open>
  Claim C7, as stated, says that no function of the library schedules or cancels the
  deferred execution of a callback, and that every call of \<open>Q.ajax\<close> performs one
  \<open>fetch\<close>. A debounced function, called twice in the waiting time, sets the timer \<open>1\<close>,
  then cancels it and sets the timer \<open>2\<close>: the first callback never runs. And a call of
  \<open>Q.ajax\<close> with a header and no data throws before it reaches \<open>fetch\<close>.
\<close>

theorem debounce_schedules_counterexample:
  "executedFunction (js ''a'') \<lparr>wait = 300, timeout = None\<rparr> fresh_page =
     (\<lparr>wait = 300, timeout = Some 1\<rparr>,
      fresh_page\<lparr>next_timer := 1, timers := [(1, Later (js ''a''))],
        events := [ClearTimeout None, SetTimeout 1 300]\<rparr>) \<and>
   executedFunction (js ''b'') \<lparr>wait = 300, timeout = Some 1\<rparr>
     (fresh_page\<lparr>next_timer := 1, timers := [(1, Later (js ''a''))],
        events := [ClearTimeout None, SetTimeout 1 300]\<rparr>) =
     (\<lparr>wait = 300, timeout = Some 2\<rparr>,
      fresh_page\<lparr>next_timer := 2, timers := [(2, Later (js ''b''))],
        events := [ClearTimeout None, SetTimeout 1 300, ClearTimeout (Some 1), SetTimeout 2 300]\<rparr>) \<and>
   Q_ajax offline (js ''GET'') (js ''/api'') None (Some [(js ''Accept'', js ''text/html'')]) fresh_page =
     (Inl TypeError, fresh_page)"
  by (simp add: executedFunction_def setTimeout_def clearTimeout_def log_event_def Let_def
        fresh_page_def Q_ajax_def make_options_def)

end
